theory Spec2Isabelle
  imports Main "HOL-Library.Word"
begin

unbundle bit_operations_syntax

section \<open>Breadcrumbs tracking of GPU progress: src/freedreno/vulkan/tu_cs_breadcrumbs.c\<close>

text \<open>
  The file instruments a command stream with numbered breadcrumbs. After each breadcrumb
  the GPU waits until a host thread has reported the number over UDP and acknowledged it.
  The embedding follows the C text function by function: machine integers are words,
  the context object is a record behind a pointer that can be null, live or freed, and
  every effect on the outside (command-stream cursor, socket, terminal, threads, log)
  is recorded in the order in which the code performs it.
\<close>

type_synonym u8 = "8 word"
type_synonym u16 = "16 word"
type_synonym u32 = "32 word"
type_synonym u64 = "64 word"

subsection \<open>Names the file takes from its headers\<close>

text \<open>
  The PM4 opcode numbers, the packet header encoding, the bit fields of CP_WAIT_REG_MEM
  and the offsets of the two sequence numbers in \<^verbatim>\<open>struct tu6_global\<close> are declared
  in headers that are not part of the sources at hand. They are parameters of the
  model: every theorem holds for all values of them. \<open>NDEBUG\<close> says whether
  \<^verbatim>\<open>assert\<close> is compiled out.
\<close>

record pm4 =
  CP_EXEC_CS_INDIRECT :: u8
  CP_EXEC_CS :: u8
  CP_DRAW_INDX :: u8
  CP_DRAW_INDX_OFFSET :: u8
  CP_DRAW_INDIRECT :: u8
  CP_DRAW_INDX_INDIRECT :: u8
  CP_DRAW_INDIRECT_MULTI :: u8
  CP_DRAW_AUTO :: u8
  CP_BLIT :: u8
  CP_WAIT_MEM_WRITES :: u8
  CP_WAIT_FOR_IDLE :: u8
  CP_WAIT_FOR_ME :: u8
  CP_MEM_WRITE :: u8
  CP_WAIT_REG_MEM :: u8
  pm4_pkt7_hdr :: "u8 \<Rightarrow> u16 \<Rightarrow> u32"
  WRITE_EQ :: u32
  CP_WAIT_REG_MEM_0_FUNCTION :: "u32 \<Rightarrow> u32"
  CP_WAIT_REG_MEM_0_POLL_MEMORY :: u32
  CP_WAIT_REG_MEM_3_REF :: "u32 \<Rightarrow> u32"
  CP_WAIT_REG_MEM_4_MASK :: "u32 \<Rightarrow> u32"
  CP_WAIT_REG_MEM_5_DELAY_LOOP_CYCLES :: "u32 \<Rightarrow> u32"
  gb_offset_breadcrumb_gpu_sync_seqno :: u64
  gb_offset_breadcrumb_cpu_sync_seqno :: u64
  NDEBUG :: bool

subsection \<open>Data\<close>

text \<open>
  \<^verbatim>\<open>struct breadcrumbs_context\<close>. The thread handle and the back-pointer to the device
  carry no information of their own here: the thread is represented by the events of
  its creation and its join, the device is passed along with the context.
\<close>

record breadcrumbs_context =
  remote_host :: string
  remote_port :: int
  breadcrumb_breakpoint :: u32
  breadcrumb_breakpoint_hits :: u32
  thread_stop :: bool
  breadcrumb_idx :: u32

text \<open>
  A pointer to a heap object: null, the address of a live object (given with the
  object's content), or an address whose memory has been passed to \<^verbatim>\<open>free\<close>.
  Reading through the last is undefined behaviour in C and a failure here, as are a
  failed assertion and a write past the end of an array.
\<close>

datatype 'a ptr = NULL | Ptr 'a | Dangling

datatype failure = Use_after_free | Assertion_failed | Buffer_overflow

text \<open>The two words of \<^verbatim>\<open>struct tu6_global\<close> that the file touches.\<close>

record tu6_global =
  breadcrumb_cpu_sync_seqno :: u32
  breadcrumb_gpu_sync_seqno :: u32

text \<open>
  \<^verbatim>\<open>struct tu_device\<close>, as far as the file reads and writes it:
  \<^verbatim>\<open>device->breadcrumbs_ctx\<close>, \<^verbatim>\<open>device->global_bo->iova\<close> and the mapping
  \<^verbatim>\<open>device->global_bo->map\<close>.
\<close>

record tu_device =
  breadcrumbs_ctx :: "breadcrumbs_context ptr"
  global_bo_iova :: u64
  global_bo_map :: tu6_global

text \<open>
  Modelled from the spec: \<^verbatim>\<open>enum tu_cs_mode\<close> is declared in tu_cs.h, which is not
  among the sources. The source tests only for \<^verbatim>\<open>TU_CS_MODE_GROW\<close>, and the spec
  distinguishes a growable from a fixed-size command stream; every mode other than
  growable is one constructor.
\<close>

datatype tu_cs_mode = TU_CS_MODE_GROW | TU_CS_MODE_NOT_GROW

text \<open>
  Modelled from the spec: the command-stream cursor \<^verbatim>\<open>struct tu_cs\<close> and its
  primitives \<^verbatim>\<open>tu_cs_reserve\<close>, \<^verbatim>\<open>tu_cs_emit\<close> and \<^verbatim>\<open>tu_cs_emit_qw\<close> live in
  tu_cs.h, which is not among the sources. The spec gives the cursor two capabilities:
  to reserve and write raw 32-bit command words, and to expose a mode and the slot
  \<^verbatim>\<open>breadcrumb_emit_after\<close>. The cursor of the model is the recording cursor of the
  spec's test plan: it keeps, in order, every call made on it, and a primitive changes
  nothing else of the cursor. The device a cursor points to is passed beside it.
\<close>

datatype cs_op = Reserve u32 | Emit u32 | Emit_qw u64

record tu_cs =
  mode :: tu_cs_mode
  breadcrumb_emit_after :: u32
  emitted :: "cs_op list"

definition tu_cs_reserve :: "tu_cs \<Rightarrow> u32 \<Rightarrow> tu_cs" where
  "tu_cs_reserve cs reserved_size = cs\<lparr>emitted := emitted cs @ [Reserve reserved_size]\<rparr>"

definition tu_cs_emit :: "tu_cs \<Rightarrow> u32 \<Rightarrow> tu_cs" where
  "tu_cs_emit cs v = cs\<lparr>emitted := emitted cs @ [Emit v]\<rparr>"

definition tu_cs_emit_qw :: "tu_cs \<Rightarrow> u64 \<Rightarrow> tu_cs" where
  "tu_cs_emit_qw cs v = cs\<lparr>emitted := emitted cs @ [Emit_qw v]\<rparr>"

subsection \<open>The command emitter\<close>

text \<open>
  \<^verbatim>\<open>emit_pkt7\<close>: the count is a 16-bit value, promoted before one is added, so
  the reserved size does not wrap at 16 bits.
\<close>

definition emit_pkt7 :: "pm4 \<Rightarrow> tu_cs \<Rightarrow> u8 \<Rightarrow> u16 \<Rightarrow> tu_cs" where
  "emit_pkt7 p cs opcode cnt =
     tu_cs_emit (tu_cs_reserve cs (ucast cnt + 1)) (pm4_pkt7_hdr p opcode cnt)"

text \<open>The case labels of the switch over the opcode, in the order of the source.\<close>

definition before_opcodes :: "pm4 \<Rightarrow> u8 list" where
  "before_opcodes p =
     [CP_EXEC_CS_INDIRECT p, CP_EXEC_CS p, CP_DRAW_INDX p, CP_DRAW_INDX_OFFSET p,
      CP_DRAW_INDIRECT p, CP_DRAW_INDX_INDIRECT p, CP_DRAW_INDIRECT_MULTI p,
      CP_DRAW_AUTO p, CP_BLIT p]"

text \<open>
  \<^verbatim>\<open>tu_cs_emit_sync_breadcrumb(cs, opcode, cnt)\<close>. The function reads and writes the
  context through \<^verbatim>\<open>cs->device->breadcrumbs_ctx\<close>; the model takes the device and
  the cursor and returns both. \<^verbatim>\<open>p_atomic_inc_return\<close> adds one to the 32-bit counter
  and yields the new value. The comparison of the unsigned breakpoint with \<^verbatim>\<open>-1\<close>
  is a comparison with the all-ones word.
\<close>

definition tu_cs_emit_sync_breadcrumb ::
  "pm4 \<Rightarrow> tu_device \<Rightarrow> tu_cs \<Rightarrow> u8 \<Rightarrow> u16 \<Rightarrow> failure + tu_device \<times> tu_cs" where
  "tu_cs_emit_sync_breadcrumb p device cs opcode cnt =
     (if mode cs \<noteq> TU_CS_MODE_GROW then Inr (device, cs)
      else case breadcrumbs_ctx device of
        NULL \<Rightarrow> Inr (device, cs)
      | Dangling \<Rightarrow> Inl Use_after_free
      | Ptr ctx \<Rightarrow>
          if thread_stop ctx then Inr (device, cs)
          else
            let before_packet = (cnt \<noteq> 0) in
            if before_packet \<and> opcode \<notin> set (before_opcodes p) then Inr (device, cs)
            else if \<not> before_packet \<and> \<not> NDEBUG p \<and> breadcrumb_emit_after cs \<noteq> 0
              then Inl Assertion_failed
            else
              let current_breadcrumb = breadcrumb_idx ctx + 1;
                  device' = device\<lparr>breadcrumbs_ctx :=
                              Ptr (ctx\<lparr>breadcrumb_idx := current_breadcrumb\<rparr>)\<rparr>
              in
              if breadcrumb_breakpoint ctx \<noteq> - 1 \<and>
                 current_breadcrumb < breadcrumb_breakpoint ctx
              then Inr (device', cs)
              else
                let cs1 = emit_pkt7 p cs (CP_WAIT_MEM_WRITES p) 0;
                    cs2 = emit_pkt7 p cs1 (CP_WAIT_FOR_IDLE p) 0;
                    cs3 = emit_pkt7 p cs2 (CP_WAIT_FOR_ME p) 0;
                    cs4 = emit_pkt7 p cs3 (CP_MEM_WRITE p) 3;
                    cs5 = tu_cs_emit_qw cs4
                            (global_bo_iova device + gb_offset_breadcrumb_gpu_sync_seqno p);
                    cs6 = tu_cs_emit cs5 current_breadcrumb;
                    cs7 = emit_pkt7 p cs6 (CP_WAIT_REG_MEM p) 6;
                    cs8 = tu_cs_emit cs7
                            (CP_WAIT_REG_MEM_0_FUNCTION p (WRITE_EQ p) OR
                             CP_WAIT_REG_MEM_0_POLL_MEMORY p);
                    cs9 = tu_cs_emit_qw cs8
                            (global_bo_iova device + gb_offset_breadcrumb_cpu_sync_seqno p);
                    cs10 = tu_cs_emit cs9 (CP_WAIT_REG_MEM_3_REF p current_breadcrumb);
                    cs11 = tu_cs_emit cs10 (CP_WAIT_REG_MEM_4_MASK p (NOT 0));
                    cs12 = tu_cs_emit cs11 (CP_WAIT_REG_MEM_5_DELAY_LOOP_CYCLES p 16)
                in Inr (device',
                        if before_packet then cs12\<lparr>breadcrumb_emit_after := ucast cnt\<rparr>
                        else cs12))"

text \<open>
  A sequence of calls on one device. Each call comes with the cursor as the driver
  presents it at that moment; the device, and with it the counter, is threaded from
  call to call. The result lists what every call returned; a call that fails ends the
  run, as the abort of the process does.
\<close>

fun emit_calls ::
  "pm4 \<Rightarrow> tu_device \<Rightarrow> (tu_cs \<times> u8 \<times> u16) list \<Rightarrow> (failure + tu_device \<times> tu_cs) list" where
  "emit_calls p device [] = []"
| "emit_calls p device ((cs, opcode, cnt) # calls) =
     (case tu_cs_emit_sync_breadcrumb p device cs opcode cnt of
        Inl e \<Rightarrow> [Inl e]
      | Inr (device', cs') \<Rightarrow> Inr (device', cs') # emit_calls p device' calls)"

text \<open>
  The filters of the emitter that depend on the call alone: the mode of the cursor and,
  in the ``before'' case, the opcode. The remaining filter is the state of the context.
\<close>

definition call_passes :: "pm4 \<Rightarrow> tu_cs \<times> u8 \<times> u16 \<Rightarrow> bool" where
  "call_passes p c =
     (case c of (cs, opcode, cnt) \<Rightarrow>
        mode cs = TU_CS_MODE_GROW \<and> (cnt = 0 \<or> opcode \<in> set (before_opcodes p)))"

text \<open>The value of the breadcrumb counter that a call left behind, and its cursor.\<close>

definition counter_after :: "failure + tu_device \<times> tu_cs \<Rightarrow> u32 option" where
  "counter_after r =
     (case r of
        Inl e \<Rightarrow> None
      | Inr (device, cs) \<Rightarrow>
          (case breadcrumbs_ctx device of
             Ptr ctx \<Rightarrow> Some (breadcrumb_idx ctx)
           | NULL \<Rightarrow> None
           | Dangling \<Rightarrow> None))"

definition cursor_after :: "failure + tu_device \<times> tu_cs \<Rightarrow> tu_cs option" where
  "cursor_after r = (case r of Inl e \<Rightarrow> None | Inr (device, cs) \<Rightarrow> Some cs)"

text \<open>
  The sync burst of the spec's table for a device and a breadcrumb index \<open>i\<close>, as
  calls on the cursor: the five packets in the order of the table, each header after the
  reservation of the packet's size, the payload words after the header. It is the
  reference the emitter is compared with; theorem \<open>sync_burst_exact\<close> states the
  same list in full.
\<close>

definition spec_sync_burst :: "pm4 \<Rightarrow> tu_device \<Rightarrow> u32 \<Rightarrow> cs_op list" where
  "spec_sync_burst p device i =
     [Reserve 1, Emit (pm4_pkt7_hdr p (CP_WAIT_MEM_WRITES p) 0),
      Reserve 1, Emit (pm4_pkt7_hdr p (CP_WAIT_FOR_IDLE p) 0),
      Reserve 1, Emit (pm4_pkt7_hdr p (CP_WAIT_FOR_ME p) 0),
      Reserve 4, Emit (pm4_pkt7_hdr p (CP_MEM_WRITE p) 3),
      Emit_qw (global_bo_iova device + gb_offset_breadcrumb_gpu_sync_seqno p),
      Emit i,
      Reserve 7, Emit (pm4_pkt7_hdr p (CP_WAIT_REG_MEM p) 6),
      Emit (CP_WAIT_REG_MEM_0_FUNCTION p (WRITE_EQ p) OR CP_WAIT_REG_MEM_0_POLL_MEMORY p),
      Emit_qw (global_bo_iova device + gb_offset_breadcrumb_cpu_sync_seqno p),
      Emit (CP_WAIT_REG_MEM_3_REF p i),
      Emit (CP_WAIT_REG_MEM_4_MASK p (NOT 0)),
      Emit (CP_WAIT_REG_MEM_5_DELAY_LOOP_CYCLES p 16)]"

subsection \<open>The host poller\<close>

text \<open>
  What the poller thread and the lifecycle functions do to the outside, in order.
  \<open>Sendto\<close> carries the endpoint, the bytes of the datagram and whether the call
  succeeded; \<open>Pthread_create\<close> carries the context the thread is started on and
  the two sequence numbers as they stand at that moment.
\<close>

datatype event =
    Loge string
  | Malloc
  | Free
  | Store_cpu_seqno u32
  | Store_gpu_seqno u32
  | Store_thread_stop bool
  | Pthread_create breadcrumbs_context tu6_global
  | Pthread_join
  | Sendto string int "u8 list" bool
  | Printf_prompt u32
  | Getchar char
  | Close_socket

text \<open>
  \<^verbatim>\<open>data = htonl(v)\<close> followed by \<^verbatim>\<open>sendto(s, &data, sizeof(data), ...)\<close>: the four
  bytes in memory of a value in network byte order are the bytes of \<open>v\<close>, most
  significant first, on a host of either byte order.
\<close>

definition htonl_bytes :: "u32 \<Rightarrow> u8 list" where
  "htonl_bytes v = [ucast (drop_bit 24 v), ucast (drop_bit 16 v), ucast (drop_bit 8 v), ucast v]"

text \<open>
  The locals of \<^verbatim>\<open>sync_gpu_with_cpu\<close>, the mapped \<^verbatim>\<open>struct tu6_global\<close>, the
  characters that standard input will deliver, and the events so far.
\<close>

record poller =
  last_breadcrumb :: u32
  breakpoint_hits :: u32
  global :: tu6_global
  stdin :: "char list"
  events :: "event list"

text \<open>
  \<^verbatim>\<open>while (getchar() != 'y') ;\<close> reads up to and including the first \<open>y\<close>. The
  result is the characters read and the rest of the input. When the input holds no
  \<open>y\<close> the loop never ends (at the end of input \<^verbatim>\<open>getchar\<close> returns \<^verbatim>\<open>EOF\<close>
  again and again): the result is \<open>None\<close>.
\<close>

fun getchar_until_y :: "char list \<Rightarrow> (char list \<times> char list) option" where
  "getchar_until_y [] = None"
| "getchar_until_y (c # rest) =
     (if c = CHR ''y'' then Some ([c], rest)
      else (case getchar_until_y rest of
              None \<Rightarrow> None
            | Some (seen, rest') \<Rightarrow> Some (c # seen, rest')))"

datatype outcome = Continue | Goto_fail | Never_returns

text \<open>
  One pass through the body of the \<^verbatim>\<open>while (!ctx->thread_stop)\<close> loop.
  \<open>send_ok\<close> is whether \<^verbatim>\<open>sendto\<close> returns a value that is not negative.
\<close>

definition poller_iteration :: "breadcrumbs_context \<Rightarrow> bool \<Rightarrow> poller \<Rightarrow> outcome \<times> poller" where
  "poller_iteration ctx send_ok st =
     (let current_breadcrumb = breadcrumb_gpu_sync_seqno (global st) in
      if current_breadcrumb \<noteq> last_breadcrumb st then
        let st1 = st\<lparr>last_breadcrumb := current_breadcrumb\<rparr>;
            data = htonl_bytes (last_breadcrumb st1);
            st2 = st1\<lparr>events := events st1 @
                    [Sendto (remote_host ctx) (remote_port ctx) data send_ok]\<rparr>
        in
        if \<not> send_ok then
          (Goto_fail, st2\<lparr>events := events st2 @ [Loge ''TU_BREADCRUMBS: sendto failed'']\<rparr>)
        else
          let asked =
                (if last_breadcrumb st2 \<ge> breadcrumb_breakpoint ctx \<and>
                    breakpoint_hits st2 \<ge> breadcrumb_breakpoint_hits ctx
                 then
                   let st3 = st2\<lparr>events := events st2 @ [Printf_prompt (last_breadcrumb st2)]\<rparr>
                   in (case getchar_until_y (stdin st3) of
                         None \<Rightarrow>
                           Inl (st3\<lparr>events := events st3 @ map Getchar (stdin st3), stdin := []\<rparr>)
                       | Some (seen, rest) \<Rightarrow>
                           Inr (st3\<lparr>events := events st3 @ map Getchar seen, stdin := rest\<rparr>))
                 else Inr st2)
          in
          (case asked of
             Inl st4 \<Rightarrow> (Never_returns, st4)
           | Inr st4 \<Rightarrow>
               let st5 = (if breadcrumb_breakpoint ctx = last_breadcrumb st4
                          then st4\<lparr>breakpoint_hits := breakpoint_hits st4 + 1\<rparr> else st4);
                   st6 = st5\<lparr>global := (global st5)\<lparr>breadcrumb_cpu_sync_seqno := last_breadcrumb st5\<rparr>,
                             events := events st5 @ [Store_cpu_seqno (last_breadcrumb st5)]\<rparr>
               in (Continue, st6))
      else (Continue, st))"

text \<open>
  What one test of the loop condition and one load of the sequence number see of the
  other participants: the stop flag as the lifecycle controller left it, the word the
  GPU wrote, and whether the network takes a datagram.
\<close>

record observation =
  stop_seen :: bool
  gpu_seqno_seen :: u32
  sendto_ok :: bool

datatype thread_status = Running | Returned | Blocked_on_stdin

text \<open>
  The loop of \<^verbatim>\<open>sync_gpu_with_cpu\<close> over the observations of its passes. The loop has
  no bound of its own: when the observations end with the stop flag still clear the
  thread is still running.
\<close>

fun poll_loop :: "breadcrumbs_context \<Rightarrow> observation list \<Rightarrow> poller \<Rightarrow> thread_status \<times> poller" where
  "poll_loop ctx [] st = (Running, st)"
| "poll_loop ctx (ob # obs) st =
     (if stop_seen ob then (Returned, st\<lparr>events := events st @ [Close_socket]\<rparr>)
      else
        (case poller_iteration ctx (sendto_ok ob)
                (st\<lparr>global := (global st)\<lparr>breadcrumb_gpu_sync_seqno := gpu_seqno_seen ob\<rparr>\<rparr>) of
           (Continue, st') \<Rightarrow> poll_loop ctx obs st'
         | (Goto_fail, st') \<Rightarrow> (Returned, st'\<lparr>events := events st' @ [Close_socket]\<rparr>)
         | (Never_returns, st') \<Rightarrow> (Blocked_on_stdin, st')))"

text \<open>
  \<^verbatim>\<open>sync_gpu_with_cpu\<close>: the thread function. \<open>socket_ok\<close> is whether
  \<^verbatim>\<open>socket\<close> returned a descriptor.
\<close>

definition sync_gpu_with_cpu ::
  "breadcrumbs_context \<Rightarrow> tu6_global \<Rightarrow> bool \<Rightarrow> char list \<Rightarrow> observation list \<Rightarrow>
   thread_status \<times> poller" where
  "sync_gpu_with_cpu ctx g socket_ok input obs =
     (let st = \<lparr>last_breadcrumb = 0, breakpoint_hits = 0, global = g, stdin = input,
                events = []\<rparr>
      in
      if \<not> socket_ok then
        (Returned, st\<lparr>events := [Loge ''TU_BREADCRUMBS: Error while creating socket'']\<rparr>)
      else poll_loop ctx obs st)"

text \<open>
  Readings of a list of events: the datagrams handed to \<^verbatim>\<open>sendto\<close>, the breadcrumbs
  for which the prompt was printed, and the values stored to the CPU sequence number,
  each in the order of the events.
\<close>

definition datagrams :: "event list \<Rightarrow> u8 list list" where
  "datagrams es = concat (map (\<lambda>e. case e of Sendto host port bytes ok \<Rightarrow> [bytes] | _ \<Rightarrow> []) es)"

definition prompts :: "event list \<Rightarrow> u32 list" where
  "prompts es = concat (map (\<lambda>e. case e of Printf_prompt v \<Rightarrow> [v] | _ \<Rightarrow> []) es)"

definition acks :: "event list \<Rightarrow> u32 list" where
  "acks es = concat (map (\<lambda>e. case e of Store_cpu_seqno v \<Rightarrow> [v] | _ \<Rightarrow> []) es)"

subsection \<open>The lifecycle controller\<close>

text \<open>
  What \<^verbatim>\<open>tu_breadcrumbs_init\<close> takes from outside the file: whether the build defines
  \<^verbatim>\<open>TU_BREADCRUMBS_ENABLED\<close>, the options of the process, and the C library's
  \<^verbatim>\<open>sscanf\<close> with the format of the source,
  \<^verbatim>\<open>"%[^:]:%d,break=%u:%u"\<close>: the number of conversions it made and the four values
  it converted, the first of them the characters that \<^verbatim>\<open>%[^:]\<close> matched.
\<close>

record os =
  TU_BREADCRUMBS_ENABLED :: bool
  os_get_option :: "string \<Rightarrow> string option"
  sscanf_breadcrumbs :: "string \<Rightarrow> nat \<times> string \<times> int \<times> u32 \<times> u32"

text \<open>The size of \<^verbatim>\<open>char remote_host[64]\<close> in \<^verbatim>\<open>struct breadcrumbs_context\<close>.\<close>

definition remote_host_size :: nat where
  "remote_host_size = 64"

text \<open>
  \<^verbatim>\<open>tu_breadcrumbs_init\<close>. The context is allocated and its counter and stop flag are
  set before the string is parsed; when the parse fails it is freed before it was ever
  attached to the device. Allocation is taken to succeed, as the source takes it.

  \<^verbatim>\<open>sscanf\<close> is handed \<^verbatim>\<open>ctx->remote_host\<close> for \<^verbatim>\<open>%[^:]\<close>, and the format gives
  no field width. When the first conversion is made, the matched characters and a
  terminating zero are stored there: with \<open>remote_host_size\<close> or more characters the
  store runs past the array, over the fields that follow it in the context and, when
  long enough, past the allocated block. That is undefined behaviour, and it happens
  inside \<^verbatim>\<open>sscanf\<close>, before the number of conversions is looked at.
\<close>

definition tu_breadcrumbs_init :: "os \<Rightarrow> tu_device \<Rightarrow> failure + tu_device \<times> event list" where
  "tu_breadcrumbs_init os device =
     (let breadcrumbs_opt =
            (if TU_BREADCRUMBS_ENABLED os then os_get_option os ''TU_BREADCRUMBS'' else None);
          device1 = device\<lparr>breadcrumbs_ctx := NULL\<rparr>
      in
      case breadcrumbs_opt of
        None \<Rightarrow> Inr (device1, [])
      | Some opt \<Rightarrow>
          (case sscanf_breadcrumbs os opt of
             (n, host, port, breakpoint, hits) \<Rightarrow>
               if 0 < n \<and> remote_host_size < length host + 1 then Inl Buffer_overflow
               else if n \<noteq> 4 then
                 Inr (device1, [Malloc, Free, Loge ''Wrong TU_BREADCRUMBS value''])
               else
                 let ctx = \<lparr>remote_host = host, remote_port = port,
                            breadcrumb_breakpoint = breakpoint,
                            breadcrumb_breakpoint_hits = hits,
                            thread_stop = False, breadcrumb_idx = 0\<rparr>;
                     device2 = device1\<lparr>breadcrumbs_ctx := Ptr ctx\<rparr>;
                     device3 = device2\<lparr>global_bo_map :=
                                 (global_bo_map device2)\<lparr>breadcrumb_cpu_sync_seqno := 0\<rparr>\<rparr>;
                     device4 = device3\<lparr>global_bo_map :=
                                 (global_bo_map device3)\<lparr>breadcrumb_gpu_sync_seqno := 0\<rparr>\<rparr>
                 in Inr (device4,
                         [Malloc, Store_cpu_seqno 0, Store_gpu_seqno 0,
                          Pthread_create ctx (global_bo_map device4)])))"

text \<open>
  \<^verbatim>\<open>tu_breadcrumbs_finish\<close>. After \<^verbatim>\<open>free(ctx)\<close> the field
  \<^verbatim>\<open>device->breadcrumbs_ctx\<close> still holds the address: the source does not reset it.
\<close>

definition tu_breadcrumbs_finish :: "tu_device \<Rightarrow> failure + tu_device \<times> event list" where
  "tu_breadcrumbs_finish device =
     (case breadcrumbs_ctx device of
        NULL \<Rightarrow> Inr (device, [])
      | Dangling \<Rightarrow> Inl Use_after_free
      | Ptr ctx \<Rightarrow>
          if thread_stop ctx then Inr (device, [])
          else Inr (device\<lparr>breadcrumbs_ctx := Dangling\<rparr>,
                    [Store_thread_stop True, Pthread_join, Free]))"

subsection \<open>Sample values\<close>

text \<open>
  Concrete parameters and states on which the theorems below are exercised. The opcode
  numbers, the header encoding and the bit fields are sample values; no theorem depends
  on them. The sample context takes the breakpoint and the number of hits. The sample
  \<^verbatim>\<open>sscanf\<close> converts the host as the C library does: the characters before the first
  colon, and no conversion at all when there are none. It knows the remaining fields of
  two option strings only, the one the header comment of the source recommends for the
  first run, \<^verbatim>\<open>TU_BREADCRUMBS=$IP:$PORT,break=-1:0\<close>, and one with a breakpoint at
  100; for every other string it reports the host as the one conversion made, which is
  what the C library does when the text ends with the host.
\<close>

definition sample_pm4 :: pm4 where
  "sample_pm4 =
     \<lparr>CP_EXEC_CS_INDIRECT = 65, CP_EXEC_CS = 51, CP_DRAW_INDX = 34, CP_DRAW_INDX_OFFSET = 56,
      CP_DRAW_INDIRECT = 40, CP_DRAW_INDX_INDIRECT = 41, CP_DRAW_INDIRECT_MULTI = 42,
      CP_DRAW_AUTO = 36, CP_BLIT = 44, CP_WAIT_MEM_WRITES = 18, CP_WAIT_FOR_IDLE = 38,
      CP_WAIT_FOR_ME = 19, CP_MEM_WRITE = 61, CP_WAIT_REG_MEM = 60,
      pm4_pkt7_hdr = (\<lambda>opcode cnt. 1879048192 OR push_bit 16 (ucast opcode) OR ucast cnt),
      WRITE_EQ = 3,
      CP_WAIT_REG_MEM_0_FUNCTION = (\<lambda>v. v AND 7),
      CP_WAIT_REG_MEM_0_POLL_MEMORY = 16,
      CP_WAIT_REG_MEM_3_REF = (\<lambda>v. v),
      CP_WAIT_REG_MEM_4_MASK = (\<lambda>v. v),
      CP_WAIT_REG_MEM_5_DELAY_LOOP_CYCLES = (\<lambda>v. v AND 65535),
      gb_offset_breadcrumb_gpu_sync_seqno = 64,
      gb_offset_breadcrumb_cpu_sync_seqno = 68,
      NDEBUG = False\<rparr>"

definition sample_ctx :: "u32 \<Rightarrow> u32 \<Rightarrow> breadcrumbs_context" where
  "sample_ctx breakpoint hits =
     \<lparr>remote_host = ''127.0.0.1'', remote_port = 9999,
      breadcrumb_breakpoint = breakpoint, breadcrumb_breakpoint_hits = hits,
      thread_stop = False, breadcrumb_idx = 0\<rparr>"

definition sample_device :: "breadcrumbs_context ptr \<Rightarrow> tu_device" where
  "sample_device c =
     \<lparr>breadcrumbs_ctx = c, global_bo_iova = 4096,
      global_bo_map = \<lparr>breadcrumb_cpu_sync_seqno = 0, breadcrumb_gpu_sync_seqno = 0\<rparr>\<rparr>"

definition sample_cs :: tu_cs where
  "sample_cs = \<lparr>mode = TU_CS_MODE_GROW, breadcrumb_emit_after = 0, emitted = []\<rparr>"

definition sample_sscanf :: "string \<Rightarrow> nat \<times> string \<times> int \<times> u32 \<times> u32" where
  "sample_sscanf s =
     (let host = takeWhile (\<lambda>c. c \<noteq> CHR '':'') s in
      if host = [] then (0, [], 0, 0, 0)
      else if s = ''127.0.0.1:9999,break=-1:0'' then (4, host, 9999, 4294967295, 0)
      else if s = ''127.0.0.1:9999,break=100:0'' then (4, host, 9999, 100, 0)
      else (1, host, 0, 0, 0))"

definition sample_os :: "string option \<Rightarrow> os" where
  "sample_os opt =
     \<lparr>TU_BREADCRUMBS_ENABLED = True,
      os_get_option = (\<lambda>name. if name = ''TU_BREADCRUMBS'' then opt else None),
      sscanf_breadcrumbs = sample_sscanf\<rparr>"

definition sample_poller :: "u32 \<Rightarrow> char list \<Rightarrow> poller" where
  "sample_poller gpu input =
     \<lparr>last_breadcrumb = 0, breakpoint_hits = 0,
      global = \<lparr>breadcrumb_cpu_sync_seqno = 0, breadcrumb_gpu_sync_seqno = gpu\<rparr>,
      stdin = input, events = []\<rparr>"

definition sample_global :: tu6_global where
  "sample_global = \<lparr>breadcrumb_cpu_sync_seqno = 0, breadcrumb_gpu_sync_seqno = 0\<rparr>"

definition sample_observation :: "u32 \<Rightarrow> observation" where
  "sample_observation gpu = \<lparr>stop_seen = False, gpu_seqno_seen = gpu, sendto_ok = True\<rparr>"

section \<open>Properties\<close>

subsection \<open>Facts shared by the proofs\<close>

lemma emit_live:
  assumes "mode cs = TU_CS_MODE_GROW" and "breadcrumbs_ctx device = Ptr ctx"
    and "\<not> thread_stop ctx"
    and "cnt = 0 \<or> opcode \<in> set (before_opcodes p)"
    and "cnt \<noteq> 0 \<or> NDEBUG p \<or> breadcrumb_emit_after cs = 0"
  shows "tu_cs_emit_sync_breadcrumb p device cs opcode cnt =
     Inr (device\<lparr>breadcrumbs_ctx := Ptr (ctx\<lparr>breadcrumb_idx := breadcrumb_idx ctx + 1\<rparr>)\<rparr>,
          if breadcrumb_breakpoint ctx \<noteq> - 1 \<and> breadcrumb_idx ctx + 1 < breadcrumb_breakpoint ctx
          then cs
          else cs\<lparr>breadcrumb_emit_after := (if cnt \<noteq> 0 then ucast cnt else breadcrumb_emit_after cs),
                  emitted := emitted cs @ spec_sync_burst p device (breadcrumb_idx ctx + 1)\<rparr>)"
proof (cases "cnt = 0")
  case True
  with assms show ?thesis
    by (simp add: tu_cs_emit_sync_breadcrumb_def Let_def emit_pkt7_def tu_cs_emit_def
      tu_cs_reserve_def tu_cs_emit_qw_def spec_sync_burst_def)
next
  case False
  with assms show ?thesis
    by (simp add: tu_cs_emit_sync_breadcrumb_def Let_def emit_pkt7_def tu_cs_emit_def
      tu_cs_reserve_def tu_cs_emit_qw_def spec_sync_burst_def)
qed

lemma emit_ignored:
  assumes "breadcrumbs_ctx device \<noteq> Dangling"
    and "mode cs \<noteq> TU_CS_MODE_GROW \<or> breadcrumbs_ctx device = NULL \<or>
         (\<exists>ctx. breadcrumbs_ctx device = Ptr ctx \<and> thread_stop ctx) \<or>
         (cnt \<noteq> 0 \<and> opcode \<notin> set (before_opcodes p))"
  shows "tu_cs_emit_sync_breadcrumb p device cs opcode cnt = Inr (device, cs)"
  using assms
  by (cases "breadcrumbs_ctx device") (auto simp add: tu_cs_emit_sync_breadcrumb_def)

lemma emit_device_after:
  assumes "breadcrumbs_ctx device = Ptr ctx" and "\<not> thread_stop ctx"
    and "tu_cs_emit_sync_breadcrumb p device cs opcode cnt = Inr (device', cs')"
  shows "device' = device\<lparr>breadcrumbs_ctx := Ptr (ctx\<lparr>breadcrumb_idx :=
           breadcrumb_idx ctx + (if call_passes p (cs, opcode, cnt) then 1 else 0)\<rparr>)\<rparr>"
proof (cases "call_passes p (cs, opcode, cnt)")
  case True
  have ok: "cnt \<noteq> 0 \<or> NDEBUG p \<or> breadcrumb_emit_after cs = 0"
    using assms True
    by (auto simp add: tu_cs_emit_sync_breadcrumb_def call_passes_def split: if_splits)
  have m: "mode cs = TU_CS_MODE_GROW" and o: "cnt = 0 \<or> opcode \<in> set (before_opcodes p)"
    using True by (auto simp add: call_passes_def)
  show ?thesis
    using emit_live [OF m assms(1) assms(2) o ok] True assms(3) by simp
next
  case False
  then have "tu_cs_emit_sync_breadcrumb p device cs opcode cnt = Inr (device, cs)"
    using assms(1) by (intro emit_ignored) (auto simp add: call_passes_def)
  with assms False show ?thesis by simp
qed

lemma emit_calls_nth:
  assumes "breadcrumbs_ctx device = Ptr ctx" and "\<not> thread_stop ctx"
    and "k < length (emit_calls p device calls)"
  shows "emit_calls p device calls ! k =
     (case calls ! k of (cs, opcode, cnt) \<Rightarrow>
        tu_cs_emit_sync_breadcrumb p
          (device\<lparr>breadcrumbs_ctx := Ptr (ctx\<lparr>breadcrumb_idx := breadcrumb_idx ctx +
             of_nat (length (filter (call_passes p) (take k calls)))\<rparr>)\<rparr>) cs opcode cnt)"
  using assms
proof (induction calls arbitrary: device ctx k)
  case Nil
  then show ?case by simp
next
  case (Cons c calls)
  obtain cs opcode cnt where c: "c = (cs, opcode, cnt)" by (cases c) auto
  show ?case
  proof (cases k)
    case 0
    have "device\<lparr>breadcrumbs_ctx := Ptr ctx\<rparr> = device"
      using Cons.prems(1) by (metis tu_device.surjective tu_device.update_convs(1))
    then show ?thesis
      using 0 c by (simp split: sum.splits prod.splits)
  next
    case (Suc j)
    show ?thesis
    proof (cases "tu_cs_emit_sync_breadcrumb p device cs opcode cnt")
      case (Inl e)
      with Cons.prems Suc c show ?thesis by simp
    next
      case (Inr r)
      obtain device' cs' where r: "r = (device', cs')" by (cases r) auto
      define ctx' where "ctx' = ctx\<lparr>breadcrumb_idx :=
           breadcrumb_idx ctx + (if call_passes p (cs, opcode, cnt) then 1 else 0)\<rparr>"
      have d': "device' = device\<lparr>breadcrumbs_ctx := Ptr ctx'\<rparr>"
        unfolding ctx'_def using emit_device_after [OF Cons.prems(1,2)] Inr r by simp
      have 1: "breadcrumbs_ctx device' = Ptr ctx'" by (simp add: d')
      have 2: "\<not> thread_stop ctx'" using Cons.prems(2) by (simp add: ctx'_def)
      have 3: "j < length (emit_calls p device' calls)"
        using Cons.prems(3) Suc c Inr r by simp
      have step: "emit_calls p device (c # calls) ! k = emit_calls p device' calls ! j"
        using Suc c Inr r by simp
      have count: "breadcrumb_idx ctx' +
            of_nat (length (filter (call_passes p) (take j calls))) =
          breadcrumb_idx ctx +
            of_nat (length (filter (call_passes p) (take k (c # calls))))"
        using Suc c by (simp add: ctx'_def)
      have dev: "device'\<lparr>breadcrumbs_ctx := Ptr (ctx'\<lparr>breadcrumb_idx := w\<rparr>)\<rparr> =
          device\<lparr>breadcrumbs_ctx := Ptr (ctx\<lparr>breadcrumb_idx := w\<rparr>)\<rparr>" for w
        by (simp add: d' ctx'_def)
      show ?thesis
        unfolding step Cons.IH [OF 1 2 3] count dev
        using Suc by simp
    qed
  qed
qed

lemma length_emit_calls:
  assumes "breadcrumbs_ctx device = Ptr ctx" and "\<not> thread_stop ctx"
    and "\<forall>c \<in> set calls. case c of (cs, opcode, cnt) \<Rightarrow>
           cnt \<noteq> 0 \<or> NDEBUG p \<or> breadcrumb_emit_after cs = 0"
  shows "length (emit_calls p device calls) = length calls"
  using assms
proof (induction calls arbitrary: device ctx)
  case Nil
  then show ?case by simp
next
  case (Cons c calls)
  obtain cs opcode cnt where c: "c = (cs, opcode, cnt)" by (cases c) auto
  have ok: "cnt \<noteq> 0 \<or> NDEBUG p \<or> breadcrumb_emit_after cs = 0"
    using Cons.prems(3) c by simp
  show ?case
  proof (cases "call_passes p (cs, opcode, cnt)")
    case True
    then have m: "mode cs = TU_CS_MODE_GROW" and o: "cnt = 0 \<or> opcode \<in> set (before_opcodes p)"
      by (auto simp add: call_passes_def)
    note e = emit_live [OF m Cons.prems(1) Cons.prems(2) o ok]
    have "length (emit_calls p
        (device\<lparr>breadcrumbs_ctx := Ptr (ctx\<lparr>breadcrumb_idx := breadcrumb_idx ctx + 1\<rparr>)\<rparr>) calls) =
        length calls"
      using Cons.prems by (intro Cons.IH [where ctx = "ctx\<lparr>breadcrumb_idx := breadcrumb_idx ctx + 1\<rparr>"]) auto
    then show ?thesis using c e by simp
  next
    case False
    then have "tu_cs_emit_sync_breadcrumb p device cs opcode cnt = Inr (device, cs)"
      using Cons.prems(1) by (intro emit_ignored) (auto simp add: call_passes_def)
    moreover have "length (emit_calls p device calls) = length calls"
      using Cons.prems by (intro Cons.IH [where ctx = ctx]) auto
    ultimately show ?thesis using c by simp
  qed
qed

lemma emit_assertion:
  assumes "mode cs = TU_CS_MODE_GROW" and "breadcrumbs_ctx device = Ptr ctx"
    and "\<not> thread_stop ctx"
    and "cnt = 0" and "\<not> NDEBUG p" and "breadcrumb_emit_after cs \<noteq> 0"
  shows "tu_cs_emit_sync_breadcrumb p device cs opcode cnt = Inl Assertion_failed"
  using assms by (simp add: tu_cs_emit_sync_breadcrumb_def)

lemma length_emit_calls_le: "length (emit_calls p device calls) \<le> length calls"
proof (induction calls arbitrary: device)
  case Nil
  then show ?case by simp
next
  case (Cons c calls)
  obtain cs opcode cnt where c: "c = (cs, opcode, cnt)" by (cases c) auto
  show ?case
    using Cons.IH by (simp add: c split: sum.splits prod.splits)
qed

subsection \<open>The emitter, call by call\<close>

text \<open>
  Claim C1. A call that passes every filter (growable cursor, live context that is not
  stopping, in the ``before'' case an opcode of the switch, in the ``after'' case the
  assertion) and that the breakpoint gate does not suppress makes exactly these calls
  on the cursor, in this order and no others: the headers of WAIT_MEM_WRITES,
  WAIT_FOR_IDLE and WAIT_FOR_ME, each with no payload; the header of MEM_WRITE with
  three payload words, the address of the GPU sequence number and the breadcrumb index
  \<open>i\<close>, which is the counter's new value; the header of WAIT_REG_MEM with six payload
  words, function EQ with the poll-memory bit, the address of the CPU sequence number,
  the reference \<open>i\<close>, the mask of all ones and the delay of 16 cycles.
\<close>

theorem sync_burst_exact:
  assumes "mode cs = TU_CS_MODE_GROW"
    and "breadcrumbs_ctx device = Ptr ctx"
    and "\<not> thread_stop ctx"
    and "cnt = 0 \<or> opcode \<in> set (before_opcodes p)"
    and "cnt \<noteq> 0 \<or> NDEBUG p \<or> breadcrumb_emit_after cs = 0"
    and "breadcrumb_breakpoint ctx = - 1 \<or> \<not> breadcrumb_idx ctx + 1 < breadcrumb_breakpoint ctx"
    and "i = breadcrumb_idx ctx + 1"
  shows "map_option emitted
           (cursor_after (tu_cs_emit_sync_breadcrumb p device cs opcode cnt)) =
         Some (emitted cs @
           [Reserve 1, Emit (pm4_pkt7_hdr p (CP_WAIT_MEM_WRITES p) 0),
            Reserve 1, Emit (pm4_pkt7_hdr p (CP_WAIT_FOR_IDLE p) 0),
            Reserve 1, Emit (pm4_pkt7_hdr p (CP_WAIT_FOR_ME p) 0),
            Reserve 4, Emit (pm4_pkt7_hdr p (CP_MEM_WRITE p) 3),
            Emit_qw (global_bo_iova device + gb_offset_breadcrumb_gpu_sync_seqno p),
            Emit i,
            Reserve 7, Emit (pm4_pkt7_hdr p (CP_WAIT_REG_MEM p) 6),
            Emit (CP_WAIT_REG_MEM_0_FUNCTION p (WRITE_EQ p) OR CP_WAIT_REG_MEM_0_POLL_MEMORY p),
            Emit_qw (global_bo_iova device + gb_offset_breadcrumb_cpu_sync_seqno p),
            Emit (CP_WAIT_REG_MEM_3_REF p i),
            Emit (CP_WAIT_REG_MEM_4_MASK p (NOT 0)),
            Emit (CP_WAIT_REG_MEM_5_DELAY_LOOP_CYCLES p 16)])"
proof -
  have "\<not> (breadcrumb_breakpoint ctx \<noteq> - 1 \<and> breadcrumb_idx ctx + 1 < breadcrumb_breakpoint ctx)"
    using assms(6) by auto
  then show ?thesis
    unfolding emit_live [OF assms(1-5)] assms(7)
    by (simp add: cursor_after_def spec_sync_burst_def)
qed

text \<open>
  The burst of a draw on the sample device, first breadcrumb, with the sample encoding.
\<close>

theorem sync_burst_exact_witness:
  "mode sample_cs = TU_CS_MODE_GROW \<and>
   34 \<in> set (before_opcodes sample_pm4) \<and>
   map_option emitted
     (cursor_after (tu_cs_emit_sync_breadcrumb sample_pm4
        (sample_device (Ptr (sample_ctx (- 1) 0))) sample_cs 34 4)) =
   Some [Reserve 1, Emit 1880227840, Reserve 1, Emit 1881538560, Reserve 1, Emit 1880293376,
         Reserve 4, Emit 1883045891, Emit_qw 4160, Emit 1,
         Reserve 7, Emit 1882980358, Emit 19, Emit_qw 4164, Emit 1, Emit (- 1), Emit 16]"
  using sync_burst_exact [of sample_cs "sample_device (Ptr (sample_ctx (- 1) 0))"
      "sample_ctx (- 1) 0" 4 34 sample_pm4 1]
  by (simp add: sample_cs_def sample_device_def sample_ctx_def sample_pm4_def before_opcodes_def)

text \<open>
  Claim C7. A call in the ``before'' case (\<open>cnt \<noteq> 0\<close>) whose opcode is none of the
  nine opcodes of the switch is ignored: the device, and with it the breadcrumb counter,
  and the cursor, and with it the words written, are returned as they were. The context
  pointer is null or live: a freed context is not read.
\<close>

theorem filtered_opcode_ignored:
  assumes "cnt \<noteq> 0"
    and "opcode \<notin> {CP_EXEC_CS_INDIRECT p, CP_EXEC_CS p, CP_DRAW_INDX p, CP_DRAW_INDX_OFFSET p,
           CP_DRAW_INDIRECT p, CP_DRAW_INDX_INDIRECT p, CP_DRAW_INDIRECT_MULTI p,
           CP_DRAW_AUTO p, CP_BLIT p}"
    and "breadcrumbs_ctx device \<noteq> Dangling"
  shows "tu_cs_emit_sync_breadcrumb p device cs opcode cnt = Inr (device, cs)"
  using assms by (intro emit_ignored) (simp_all add: before_opcodes_def)

text \<open>The opcode 16 with four payload words on the sample device.\<close>

theorem filtered_opcode_ignored_witness:
  "(4 :: u16) \<noteq> 0 \<and>
   tu_cs_emit_sync_breadcrumb sample_pm4 (sample_device (Ptr (sample_ctx (- 1) 0))) sample_cs 16 4 =
     Inr (sample_device (Ptr (sample_ctx (- 1) 0)), sample_cs)"
  using filtered_opcode_ignored [of 4 16 sample_pm4 "sample_device (Ptr (sample_ctx (- 1) 0))" sample_cs]
  by (simp add: sample_device_def sample_pm4_def)

text \<open>
  Claim C10. In the ``after'' case (\<open>cnt = 0\<close>) on a growable cursor with a live
  context that is not stopping, the opcode plays no part: for every opcode the counter
  is incremented, the burst for the new value is written unless the breakpoint gate
  suppresses it, and nothing else of the cursor changes, so
  \<^verbatim>\<open>breadcrumb_emit_after\<close> is as before. The assertion of the source on entry,
  \<^verbatim>\<open>breadcrumb_emit_after == 0\<close>, holds or is compiled out.
\<close>

theorem after_case_unfiltered:
  assumes "mode cs = TU_CS_MODE_GROW"
    and "breadcrumbs_ctx device = Ptr ctx"
    and "\<not> thread_stop ctx"
    and "NDEBUG p \<or> breadcrumb_emit_after cs = 0"
  shows "tu_cs_emit_sync_breadcrumb p device cs opcode 0 =
     Inr (device\<lparr>breadcrumbs_ctx := Ptr (ctx\<lparr>breadcrumb_idx := breadcrumb_idx ctx + 1\<rparr>)\<rparr>,
          if breadcrumb_breakpoint ctx \<noteq> - 1 \<and> breadcrumb_idx ctx + 1 < breadcrumb_breakpoint ctx
          then cs
          else cs\<lparr>emitted := emitted cs @ spec_sync_burst p device (breadcrumb_idx ctx + 1)\<rparr>)"
proof -
  have "cs\<lparr>breadcrumb_emit_after := breadcrumb_emit_after cs, emitted := es\<rparr> = cs\<lparr>emitted := es\<rparr>" for es
    by simp
  then show ?thesis
    using emit_live [OF assms(1-3), of 0 opcode p] assms(4) by simp
qed

text \<open>The opcode 255, which the switch does not list, on the sample device.\<close>

theorem after_case_unfiltered_witness:
  "tu_cs_emit_sync_breadcrumb sample_pm4 (sample_device (Ptr (sample_ctx (- 1) 0))) sample_cs 255 0 =
     Inr (sample_device (Ptr ((sample_ctx (- 1) 0)\<lparr>breadcrumb_idx := 1\<rparr>)),
          sample_cs\<lparr>emitted :=
            spec_sync_burst sample_pm4 (sample_device (Ptr (sample_ctx (- 1) 0))) 1\<rparr>) \<and>
   255 \<notin> set (before_opcodes sample_pm4)"
  using after_case_unfiltered [of sample_cs "sample_device (Ptr (sample_ctx (- 1) 0))"
      "sample_ctx (- 1) 0" sample_pm4 255]
  by (simp add: sample_cs_def sample_device_def sample_ctx_def sample_pm4_def before_opcodes_def)

subsection \<open>The emitter over a sequence of calls\<close>

text \<open>
  The \<open>k\<close>-th call of a run on a live context, when it passes the filters: the
  counter it leaves is the counter at the start plus the number of passing calls up to
  and including it, and the gate is applied to that value.
\<close>

lemma emit_calls_nth_live:
  assumes "breadcrumbs_ctx device = Ptr ctx" and "\<not> thread_stop ctx"
    and "k < length (emit_calls p device calls)"
    and "calls ! k = (cs, opcode, cnt)"
    and "call_passes p (cs, opcode, cnt)"
    and "cnt \<noteq> 0 \<or> NDEBUG p \<or> breadcrumb_emit_after cs = 0"
    and "i = breadcrumb_idx ctx + of_nat (length (filter (call_passes p) (take (Suc k) calls)))"
  shows "emit_calls p device calls ! k =
     Inr (device\<lparr>breadcrumbs_ctx := Ptr (ctx\<lparr>breadcrumb_idx := i\<rparr>)\<rparr>,
          if breadcrumb_breakpoint ctx \<noteq> - 1 \<and> i < breadcrumb_breakpoint ctx
          then cs
          else cs\<lparr>breadcrumb_emit_after := (if cnt \<noteq> 0 then ucast cnt else breadcrumb_emit_after cs),
                  emitted := emitted cs @ spec_sync_burst p device i\<rparr>)"
proof -
  define n where "n = length (filter (call_passes p) (take k calls))"
  define ctx' where "ctx' = ctx\<lparr>breadcrumb_idx := breadcrumb_idx ctx + of_nat n\<rparr>"
  define device' where "device' = device\<lparr>breadcrumbs_ctx := Ptr ctx'\<rparr>"
  have kl: "k < length calls"
    using assms(3) length_emit_calls_le [of p device calls] by simp
  have nth: "emit_calls p device calls ! k = tu_cs_emit_sync_breadcrumb p device' cs opcode cnt"
    using emit_calls_nth [OF assms(1,2,3)] assms(4) by (simp add: device'_def ctx'_def n_def)
  have m: "mode cs = TU_CS_MODE_GROW" and o: "cnt = 0 \<or> opcode \<in> set (before_opcodes p)"
    using assms(5) by (auto simp add: call_passes_def)
  have 1: "breadcrumbs_ctx device' = Ptr ctx'" by (simp add: device'_def)
  have 2: "\<not> thread_stop ctx'" using assms(2) by (simp add: ctx'_def)
  have "take (Suc k) calls = take k calls @ [calls ! k]"
    using kl by (simp add: take_Suc_conv_app_nth)
  then have "length (filter (call_passes p) (take (Suc k) calls)) = Suc n"
    using assms(4,5) by (simp add: n_def)
  then have i: "i = breadcrumb_idx ctx' + 1"
    using assms(7) by (simp add: ctx'_def)
  have burst: "spec_sync_burst p device' = spec_sync_burst p device"
    by (simp add: spec_sync_burst_def device'_def fun_eq_iff)
  show ?thesis
    unfolding nth emit_live [OF m 1 2 o assms(6)] i [symmetric] burst
    by (simp add: device'_def ctx'_def)
qed

lemma replicate_index:
  assumes "breadcrumbs_ctx device = Ptr ctx" and "breadcrumb_idx ctx = 0" and "\<not> thread_stop ctx"
    and "call_passes p (cs, opcode, cnt)"
    and "cnt \<noteq> 0 \<or> NDEBUG p \<or> breadcrumb_emit_after cs = 0"
    and "k < n"
  shows "counter_after (emit_calls p device (replicate n (cs, opcode, cnt)) ! k) = Some (of_nat (Suc k))"
proof -
  have len: "length (emit_calls p device (replicate n (cs, opcode, cnt))) = n"
    using assms(5) by (simp add: length_emit_calls [OF assms(1,3)])
  have k: "k < length (emit_calls p device (replicate n (cs, opcode, cnt)))"
    using assms(6) len by simp
  have c: "replicate n (cs, opcode, cnt) ! k = (cs, opcode, cnt)"
    using assms(6) by simp
  have "take (Suc k) (replicate n (cs, opcode, cnt)) = replicate (Suc k) (cs, opcode, cnt)"
    using assms(6) by (simp add: min_def del: replicate_Suc)
  then have cnt: "length (filter (call_passes p) (take (Suc k) (replicate n (cs, opcode, cnt)))) = Suc k"
    using assms(4) by (simp del: replicate_Suc)
  show ?thesis
    unfolding emit_calls_nth_live [OF assms(1,3) k c assms(4,5) refl] cnt
    by (simp add: counter_after_def assms(2))
qed

text \<open>
  Claim C3, as amended. On a device whose context was just initialised (counter 0, not
  stopping), in every sequence of calls, the call that is the \<open>n\<close>-th to pass the
  mode, context and opcode filters receives the breadcrumb index \<open>n mod 2^32\<close>,
  whether or not the breakpoint gate then suppresses its burst (the breakpoint is
  arbitrary). So the indices are 1, 2, 3, ... without gaps up to \<open>2^32 - 1\<close>; the
  counter has 32 bits and the next index is 0. The call returns: in the ``after'' case
  the assertion of the source holds or is compiled out.
\<close>

theorem breadcrumb_indices_count_passing_calls:
  assumes "breadcrumbs_ctx device = Ptr ctx"
    and "breadcrumb_idx ctx = 0"
    and "\<not> thread_stop ctx"
    and "k < length (emit_calls p device calls)"
    and "calls ! k = (cs, opcode, cnt)"
    and "call_passes p (cs, opcode, cnt)"
    and "cnt \<noteq> 0 \<or> NDEBUG p \<or> breadcrumb_emit_after cs = 0"
  shows "map_option unat (counter_after (emit_calls p device calls ! k)) =
     Some (length (filter (call_passes p) (take (Suc k) calls)) mod 2 ^ 32)"
  unfolding emit_calls_nth_live [OF assms(1,3,4,5,6,7) refl]
  by (simp add: counter_after_def assms(2) unat_of_nat)

text \<open>
  A draw, an opcode that the switch does not list, and an ``after'' call, on a device
  whose breakpoint of 100 suppresses every burst: the third call is the second that
  passes and receives the index 2.
\<close>

theorem breadcrumb_indices_count_passing_calls_witness:
  "call_passes sample_pm4 (sample_cs, 34, 4) \<and>
   \<not> call_passes sample_pm4 (sample_cs, 16, 4) \<and>
   call_passes sample_pm4 (sample_cs, 255, 0) \<and>
   map_option unat (counter_after
     (emit_calls sample_pm4 (sample_device (Ptr (sample_ctx 100 0)))
        [(sample_cs, 34, 4), (sample_cs, 16, 4), (sample_cs, 255, 0)] ! 2)) = Some 2"
  using breadcrumb_indices_count_passing_calls
    [of "sample_device (Ptr (sample_ctx 100 0))" "sample_ctx 100 0" 2 sample_pm4
        "[(sample_cs, 34, 4), (sample_cs, 16, 4), (sample_cs, 255, 0)]" sample_cs 255 0]
  by (simp add: sample_cs_def sample_device_def sample_ctx_def sample_pm4_def before_opcodes_def
      call_passes_def tu_cs_emit_sync_breadcrumb_def counter_after_def)

text \<open>
  Claim C3 as stated fails for a run of \<open>2^32\<close> draws: every call passes the filters,
  the call before the last receives \<open>2^32 - 1\<close> and the last receives 0, neither its
  position in the run nor a larger value than the one before.
\<close>

theorem counter_wraps_counterexample:
  "call_passes sample_pm4 (sample_cs, 34, 4) \<and>
   counter_after (emit_calls sample_pm4 (sample_device (Ptr (sample_ctx (- 1) 0)))
        (replicate (2 ^ 32) (sample_cs, 34, 4)) ! (2 ^ 32 - 2)) = Some 4294967295 \<and>
   counter_after (emit_calls sample_pm4 (sample_device (Ptr (sample_ctx (- 1) 0)))
        (replicate (2 ^ 32) (sample_cs, 34, 4)) ! (2 ^ 32 - 1)) = Some 0"
proof -
  have p: "call_passes sample_pm4 (sample_cs, 34, 4)"
    by (simp add: call_passes_def sample_cs_def sample_pm4_def before_opcodes_def)
  have d: "breadcrumbs_ctx (sample_device (Ptr (sample_ctx (- 1) 0))) = Ptr (sample_ctx (- 1) 0)"
    by (simp add: sample_device_def)
  have i: "breadcrumb_idx (sample_ctx (- 1) 0) = 0" and s: "\<not> thread_stop (sample_ctx (- 1) 0)"
    by (simp_all add: sample_ctx_def)
  have a: "(4 :: u16) \<noteq> 0 \<or> NDEBUG sample_pm4 \<or> breadcrumb_emit_after sample_cs = 0"
    by simp
  have k1: "(2 :: nat) ^ 32 - 2 < 2 ^ 32" and k2: "(2 :: nat) ^ 32 - 1 < 2 ^ 32"
    by simp_all
  have w1: "(of_nat (Suc (2 ^ 32 - 2)) :: u32) = 4294967295"
    by simp
  have w2: "(of_nat (Suc (2 ^ 32 - 1)) :: u32) = 0"
    by simp
  show ?thesis
    using p replicate_index [OF d i s p a k1] replicate_index [OF d i s p a k2]
    unfolding w1 w2 by blast
qed

text \<open>
  Claim C4. With a breakpoint that is not the all-ones sentinel, on a device whose
  context was just initialised, a passing call whose breadcrumb index \<open>i\<close> is below the
  breakpoint leaves the cursor as it was: nothing is written. A passing call whose index
  is at or above the breakpoint writes the whole burst for \<open>i\<close>. The index is the number
  of passing calls up to and including this one, as a 32-bit value.
\<close>

theorem breakpoint_gate:
  assumes "breadcrumbs_ctx device = Ptr ctx"
    and "breadcrumb_idx ctx = 0"
    and "\<not> thread_stop ctx"
    and "breadcrumb_breakpoint ctx \<noteq> - 1"
    and "k < length (emit_calls p device calls)"
    and "calls ! k = (cs, opcode, cnt)"
    and "call_passes p (cs, opcode, cnt)"
    and "cnt \<noteq> 0 \<or> NDEBUG p \<or> breadcrumb_emit_after cs = 0"
    and "i = of_nat (length (filter (call_passes p) (take (Suc k) calls)))"
  shows "cursor_after (emit_calls p device calls ! k) =
     Some (if i < breadcrumb_breakpoint ctx then cs
           else cs\<lparr>breadcrumb_emit_after := (if cnt \<noteq> 0 then ucast cnt else breadcrumb_emit_after cs),
                   emitted := emitted cs @ spec_sync_burst p device i\<rparr>)"
proof -
  have i: "i = breadcrumb_idx ctx + of_nat (length (filter (call_passes p) (take (Suc k) calls)))"
    using assms(2,9) by simp
  show ?thesis
    unfolding emit_calls_nth_live [OF assms(1,3,5,6,7,8) i]
    using assms(4) by (simp add: cursor_after_def)
qed

text \<open>
  Scenario S4 of the spec: breakpoint 100, 150 draws. The first 99 calls return the
  cursor untouched; the calls 100 to 150 each write the burst that publishes their
  index.
\<close>

theorem breakpoint_gate_witness:
  "map cursor_after
     (emit_calls sample_pm4 (sample_device (Ptr (sample_ctx 100 0)))
        (replicate 150 (sample_cs, 34, 4))) =
   replicate 99 (Some sample_cs) @
   map (\<lambda>i. Some (sample_cs\<lparr>breadcrumb_emit_after := 4,
                     emitted := spec_sync_burst sample_pm4
                       (sample_device (Ptr (sample_ctx 100 0))) (of_nat i)\<rparr>))
     [100 ..< 151]"
proof -
  define dev where "dev = sample_device (Ptr (sample_ctx 100 0))"
  define calls where "calls = replicate 150 (sample_cs, 34 :: u8, 4 :: u16)"
  have p: "call_passes sample_pm4 (sample_cs, 34, 4)"
    by (simp add: call_passes_def sample_cs_def sample_pm4_def before_opcodes_def)
  have d: "breadcrumbs_ctx dev = Ptr (sample_ctx 100 0)"
    by (simp add: dev_def sample_device_def)
  have i: "breadcrumb_idx (sample_ctx 100 0) = 0" and s: "\<not> thread_stop (sample_ctx 100 0)"
    and b: "breadcrumb_breakpoint (sample_ctx 100 0) \<noteq> - 1"
    and b100: "breadcrumb_breakpoint (sample_ctx 100 0) = 100"
    by (simp_all add: sample_ctx_def)
  have a: "(4 :: u16) \<noteq> 0 \<or> NDEBUG sample_pm4 \<or> breadcrumb_emit_after sample_cs = 0"
    by simp
  have len: "length (emit_calls sample_pm4 dev calls) = 150"
    by (simp add: length_emit_calls [OF d s] calls_def)
  have nth: "cursor_after (emit_calls sample_pm4 dev calls ! k) =
      Some (if k < 99 then sample_cs
            else sample_cs\<lparr>breadcrumb_emit_after := 4,
                   emitted := spec_sync_burst sample_pm4 dev (of_nat (Suc k))\<rparr>)"
    if k: "k < 150" for k
  proof -
    have kl: "k < length (emit_calls sample_pm4 dev calls)" using k len by simp
    have c: "calls ! k = (sample_cs, 34, 4)" using k by (simp add: calls_def)
    have "take (Suc k) calls = replicate (Suc k) (sample_cs, 34, 4)"
      using k by (simp add: calls_def min_def del: replicate_Suc)
    then have n: "length (filter (call_passes sample_pm4) (take (Suc k) calls)) = Suc k"
      using p by (simp del: replicate_Suc)
    have lt: "(of_nat (Suc k) :: u32) < 100 \<longleftrightarrow> k < 99"
      using k by (simp add: word_less_nat_alt unat_of_nat del: of_nat_Suc) 
    show ?thesis
      using breakpoint_gate [OF d i s b kl c p a refl] unfolding n b100 lt
      by (simp add: sample_cs_def)
  qed
  have "map cursor_after (emit_calls sample_pm4 dev calls) =
      replicate 99 (Some sample_cs) @
      map (\<lambda>i. Some (sample_cs\<lparr>breadcrumb_emit_after := 4,
                     emitted := spec_sync_burst sample_pm4 dev (of_nat i)\<rparr>)) [100 ..< 151]"
  proof (rule nth_equalityI)
    show "length (map cursor_after (emit_calls sample_pm4 dev calls)) =
        length (replicate 99 (Some sample_cs) @
          map (\<lambda>i. Some (sample_cs\<lparr>breadcrumb_emit_after := 4,
                     emitted := spec_sync_burst sample_pm4 dev (of_nat i)\<rparr>)) [100 ..< 151])"
      using len by simp
  next
    fix k assume "k < length (map cursor_after (emit_calls sample_pm4 dev calls))"
    then have k: "k < 150" using len by simp
    show "map cursor_after (emit_calls sample_pm4 dev calls) ! k =
        (replicate 99 (Some sample_cs) @
          map (\<lambda>i. Some (sample_cs\<lparr>breadcrumb_emit_after := 4,
                     emitted := spec_sync_burst sample_pm4 dev (of_nat i)\<rparr>)) [100 ..< 151]) ! k"
    proof (cases "k < 99")
      case True
      then show ?thesis using nth [OF k] k len by (simp add: nth_append)
    next
      case False
      then have e: "100 + (k - 99) = Suc k" and r: "k - 99 < 151 - 100"
        using k by simp_all
      show ?thesis
        using nth [OF k] k len False
        by (simp add: nth_append nth_map_upt [OF r] e del: upt_rec_numeral upt_Suc of_nat_Suc)
    qed
  qed
  then show ?thesis by (simp only: dev_def calls_def)
qed

subsection \<open>Facts about the poller\<close>

text \<open>The four bytes of a datagram are the value, most significant byte first.\<close>

lemma u32_of_its_bytes:
  "push_bit 24 (ucast (ucast (drop_bit 24 v) :: u8) :: u32) OR
   push_bit 16 (ucast (ucast (drop_bit 16 v) :: u8)) OR
   push_bit 8 (ucast (ucast (drop_bit 8 v) :: u8)) OR
   ucast (ucast v :: u8) = v" for v :: u32
proof (rule bit_eqI)
  fix n
  assume "possible_bit TYPE(u32) n"
  then have n: "n < 32" by (simp add: possible_bit_def)
  consider "n < 8" | "8 \<le> n" "n < 16" | "16 \<le> n" "n < 24" | "24 \<le> n"
    by linarith
  then show "bit (push_bit 24 (ucast (ucast (drop_bit 24 v) :: u8) :: u32) OR
     push_bit 16 (ucast (ucast (drop_bit 16 v) :: u8)) OR
     push_bit 8 (ucast (ucast (drop_bit 8 v) :: u8)) OR
     ucast (ucast v :: u8)) n = bit v n"
    using n by cases (auto simp add: bit_simps)
qed

lemma htonl_bytes_big_endian:
  "length (htonl_bytes v) = 4 \<and>
   push_bit 24 (ucast (htonl_bytes v ! 0)) OR push_bit 16 (ucast (htonl_bytes v ! 1)) OR
   push_bit 8 (ucast (htonl_bytes v ! 2)) OR ucast (htonl_bytes v ! 3) = v"
  using u32_of_its_bytes [of v] by (simp add: htonl_bytes_def)


lemma datagrams_append [simp]: "datagrams (xs @ ys) = datagrams xs @ datagrams ys"
  by (simp add: datagrams_def)

lemma prompts_append [simp]: "prompts (xs @ ys) = prompts xs @ prompts ys"
  by (simp add: prompts_def)

lemma acks_append [simp]: "acks (xs @ ys) = acks xs @ acks ys"
  by (simp add: acks_def)

lemma readings_Getchar [simp]:
  "datagrams (map Getchar cs) = []" "prompts (map Getchar cs) = []" "acks (map Getchar cs) = []"
  by (induction cs) (simp_all add: datagrams_def prompts_def acks_def)

lemma getchar_until_y_Some:
  "getchar_until_y input = Some (seen, rest) \<Longrightarrow>
     \<exists>before. seen = before @ [CHR ''y''] \<and> CHR ''y'' \<notin> set before \<and> input = seen @ rest"
proof (induction input arbitrary: seen)
  case Nil
  then show ?case by simp
next
  case (Cons c input)
  show ?case
  proof (cases "c = CHR ''y''")
    case True
    with Cons.prems show ?thesis by auto
  next
    case False
    with Cons.prems obtain seen' where s: "getchar_until_y input = Some (seen', rest)"
      and e: "seen = c # seen'"
      by (auto split: option.splits)
    from Cons.IH [OF s] obtain before where
      "seen' = before @ [CHR ''y'']" "CHR ''y'' \<notin> set before" "input = seen' @ rest"
      by blast
    with e False show ?thesis
      by (intro exI [of _ "c # before"]) simp
  qed
qed

text \<open>
  The body of the loop: no change of the sequence number, and the four ways through it
  when the sequence number is new.
\<close>

lemma poller_iteration_same:
  "breadcrumb_gpu_sync_seqno (global st) = last_breadcrumb st \<Longrightarrow>
     poller_iteration ctx send_ok st = (Continue, st)"
  by (simp add: poller_iteration_def)

lemma poller_iteration_send_failed:
  assumes "breadcrumb_gpu_sync_seqno (global st) = i" and "i \<noteq> last_breadcrumb st"
  shows "poller_iteration ctx False st =
     (Goto_fail, st\<lparr>last_breadcrumb := i,
        events := events st @ [Sendto (remote_host ctx) (remote_port ctx) (htonl_bytes i) False,
                               Loge ''TU_BREADCRUMBS: sendto failed'']\<rparr>)"
  using assms by (simp add: poller_iteration_def Let_def)

lemma poller_iteration_no_prompt:
  assumes "breadcrumb_gpu_sync_seqno (global st) = i" and "i \<noteq> last_breadcrumb st"
    and "\<not> (i \<ge> breadcrumb_breakpoint ctx \<and> breakpoint_hits st \<ge> breadcrumb_breakpoint_hits ctx)"
  shows "poller_iteration ctx True st =
     (Continue, st\<lparr>last_breadcrumb := i,
        breakpoint_hits := breakpoint_hits st + (if breadcrumb_breakpoint ctx = i then 1 else 0),
        global := (global st)\<lparr>breadcrumb_cpu_sync_seqno := i\<rparr>,
        events := events st @ [Sendto (remote_host ctx) (remote_port ctx) (htonl_bytes i) True,
                               Store_cpu_seqno i]\<rparr>)"
proof -
  have "(if last_breadcrumb (st\<lparr>last_breadcrumb := i\<rparr>) \<ge> breadcrumb_breakpoint ctx \<and>
            breakpoint_hits st \<ge> breadcrumb_breakpoint_hits ctx then a else b) = b" for a b :: "poller + poller"
    using assms(3) by auto
  then show ?thesis
    using assms(1,2) by (simp add: poller_iteration_def Let_def)
qed

lemma poller_iteration_prompt_acked:
  assumes "breadcrumb_gpu_sync_seqno (global st) = i" and "i \<noteq> last_breadcrumb st"
    and "i \<ge> breadcrumb_breakpoint ctx" and "breakpoint_hits st \<ge> breadcrumb_breakpoint_hits ctx"
    and "getchar_until_y (stdin st) = Some (seen, rest)"
  shows "poller_iteration ctx True st =
     (Continue, st\<lparr>last_breadcrumb := i,
        breakpoint_hits := breakpoint_hits st + (if breadcrumb_breakpoint ctx = i then 1 else 0),
        global := (global st)\<lparr>breadcrumb_cpu_sync_seqno := i\<rparr>,
        stdin := rest,
        events := events st @ [Sendto (remote_host ctx) (remote_port ctx) (htonl_bytes i) True,
                               Printf_prompt i] @ map Getchar seen @ [Store_cpu_seqno i]\<rparr>)"
  using assms by (simp add: poller_iteration_def Let_def)

lemma poller_iteration_prompt_blocked:
  assumes "breadcrumb_gpu_sync_seqno (global st) = i" and "i \<noteq> last_breadcrumb st"
    and "i \<ge> breadcrumb_breakpoint ctx" and "breakpoint_hits st \<ge> breadcrumb_breakpoint_hits ctx"
    and "getchar_until_y (stdin st) = None"
  shows "poller_iteration ctx True st =
     (Never_returns, st\<lparr>last_breadcrumb := i,
        stdin := [],
        events := events st @ [Sendto (remote_host ctx) (remote_port ctx) (htonl_bytes i) True,
                               Printf_prompt i] @ map Getchar (stdin st)\<rparr>)"
  using assms by (simp add: poller_iteration_def Let_def)

lemma readings_Nil [simp]: "datagrams [] = []" "prompts [] = []" "acks [] = []"
  by (simp_all add: datagrams_def prompts_def acks_def)

lemma datagrams_Cons [simp]:
  "datagrams (e # es) =
     (case e of Sendto host port bytes ok \<Rightarrow> [bytes] | _ \<Rightarrow> []) @ datagrams es"
  by (simp add: datagrams_def)

lemma prompts_Cons [simp]:
  "prompts (e # es) = (case e of Printf_prompt v \<Rightarrow> [v] | _ \<Rightarrow> []) @ prompts es"
  by (simp add: prompts_def)

lemma acks_Cons [simp]:
  "acks (e # es) = (case e of Store_cpu_seqno v \<Rightarrow> [v] | _ \<Rightarrow> []) @ acks es"
  by (simp add: acks_def)

subsection \<open>The poller, pass by pass\<close>

text \<open>The wait for \<open>y\<close> ends exactly when the input holds a \<open>y\<close>.\<close>

lemma getchar_until_y_None: "getchar_until_y input = None \<longleftrightarrow> CHR ''y'' \<notin> set input"
  by (induction input) (auto split: option.splits)

text \<open>
  Claim C2. Take a pass of the poller that finds a new value \<open>i\<close> in the GPU sequence
  number (\<open>i\<close> differs from the last value seen), and let \<open>asked\<close> say that the
  prompt is due. The pass records \<open>i\<close> as the last value seen, so the same value is
  not reported again. Exactly one datagram is handed to \<^verbatim>\<open>sendto\<close>, as the first event
  of the pass; it has four bytes, and they are \<open>i\<close> with the most significant byte
  first. The pass runs to its end exactly when the send succeeded and, if the prompt is
  due, a \<open>y\<close> arrives on standard input; it leaves the loop exactly when the send
  failed. A pass that runs to its end writes \<open>i\<close> to the CPU sequence number, once,
  as its last event: after the send and, when the prompt was printed, after the
  characters read from standard input up to the first \<open>y\<close>. A pass that ends
  otherwise writes nothing to the sequence numbers.
\<close>

theorem report_then_ack:
  assumes "breadcrumb_gpu_sync_seqno (global st) = i"
    and "i \<noteq> last_breadcrumb st"
    and "poller_iteration ctx send_ok st = (out, st')"
    and "asked = (i \<ge> breadcrumb_breakpoint ctx \<and>
                  breakpoint_hits st \<ge> breadcrumb_breakpoint_hits ctx)"
  shows "last_breadcrumb st' = i \<and>
     datagrams (events st') = datagrams (events st) @ [htonl_bytes i] \<and>
     length (htonl_bytes i) = 4 \<and>
     push_bit 24 (ucast (htonl_bytes i ! 0)) OR push_bit 16 (ucast (htonl_bytes i ! 1)) OR
       push_bit 8 (ucast (htonl_bytes i ! 2)) OR ucast (htonl_bytes i ! 3) = i \<and>
     (out = Continue) = (send_ok \<and> (asked \<longrightarrow> CHR ''y'' \<in> set (stdin st))) \<and>
     (out = Goto_fail) = (\<not> send_ok) \<and>
     (if out = Continue then
        breadcrumb_cpu_sync_seqno (global st') = i \<and>
        acks (events st') = acks (events st) @ [i] \<and>
        (\<exists>before.
           CHR ''y'' \<notin> set before \<and>
           (asked \<longrightarrow> stdin st = before @ CHR ''y'' # stdin st') \<and>
           events st' = events st @
             [Sendto (remote_host ctx) (remote_port ctx) (htonl_bytes i) True] @
             (if asked then Printf_prompt i # map Getchar (before @ [CHR ''y'']) else []) @
             [Store_cpu_seqno i])
      else
        global st' = global st \<and>
        acks (events st') = acks (events st) \<and>
        (\<exists>rest. events st' = events st @
           Sendto (remote_host ctx) (remote_port ctx) (htonl_bytes i) send_ok # rest))"
proof -
  have bytes: "length (htonl_bytes i) = 4 \<and>
     push_bit 24 (ucast (htonl_bytes i ! 0)) OR push_bit 16 (ucast (htonl_bytes i ! 1)) OR
       push_bit 8 (ucast (htonl_bytes i ! 2)) OR ucast (htonl_bytes i ! 3) = i"
    by (rule htonl_bytes_big_endian)
  consider (failed) "\<not> send_ok"
    | (plain) "send_ok" "\<not> asked"
    | (acked) seen rest where "send_ok" "asked" "getchar_until_y (stdin st) = Some (seen, rest)"
    | (blocked) "send_ok" "asked" "getchar_until_y (stdin st) = None"
    by (cases "getchar_until_y (stdin st)") auto
  then have "last_breadcrumb st' = i \<and>
     datagrams (events st') = datagrams (events st) @ [htonl_bytes i] \<and>
     (out = Continue) = (send_ok \<and> (asked \<longrightarrow> CHR ''y'' \<in> set (stdin st))) \<and>
     (out = Goto_fail) = (\<not> send_ok) \<and>
     (if out = Continue then
        breadcrumb_cpu_sync_seqno (global st') = i \<and>
        acks (events st') = acks (events st) @ [i] \<and>
        (\<exists>before.
           CHR ''y'' \<notin> set before \<and>
           (asked \<longrightarrow> stdin st = before @ CHR ''y'' # stdin st') \<and>
           events st' = events st @
             [Sendto (remote_host ctx) (remote_port ctx) (htonl_bytes i) True] @
             (if asked then Printf_prompt i # map Getchar (before @ [CHR ''y'']) else []) @
             [Store_cpu_seqno i])
      else
        global st' = global st \<and>
        acks (events st') = acks (events st) \<and>
        (\<exists>rest. events st' = events st @
           Sendto (remote_host ctx) (remote_port ctx) (htonl_bytes i) send_ok # rest))"
  proof cases
    case failed
    then show ?thesis
      using poller_iteration_send_failed [OF assms(1,2), of ctx] assms(3) by auto
  next
    case plain
    have np: "\<not> (i \<ge> breadcrumb_breakpoint ctx \<and>
        breakpoint_hits st \<ge> breadcrumb_breakpoint_hits ctx)"
      using plain(2) assms(4) by simp
    have "poller_iteration ctx True st = (out, st')"
      using assms(3) plain(1) by simp
    moreover have "\<exists>before. CHR ''y'' \<notin> set before"
      by (rule exI [of _ "[]"]) simp
    ultimately show ?thesis
      using poller_iteration_no_prompt [OF assms(1,2) np] plain by auto
  next
    case acked
    from getchar_until_y_Some [OF acked(3)] obtain before where
      b: "seen = before @ [CHR ''y'']" "CHR ''y'' \<notin> set before" "stdin st = seen @ rest"
      by blast
    have y: "CHR ''y'' \<in> set (stdin st)" using b by simp
    have a: "i \<ge> breadcrumb_breakpoint ctx" "breakpoint_hits st \<ge> breadcrumb_breakpoint_hits ctx"
      using acked(2) assms(4) by simp_all
    have it: "poller_iteration ctx True st = (out, st')"
      using assms(3) acked(1) by simp
    note r = poller_iteration_prompt_acked [OF assms(1,2) a acked(3)]
    have o: "out = Continue" and s: "st' = st\<lparr>last_breadcrumb := i,
        breakpoint_hits := breakpoint_hits st + (if breadcrumb_breakpoint ctx = i then 1 else 0),
        global := (global st)\<lparr>breadcrumb_cpu_sync_seqno := i\<rparr>,
        stdin := rest,
        events := events st @ [Sendto (remote_host ctx) (remote_port ctx) (htonl_bytes i) True,
                               Printf_prompt i] @ map Getchar seen @ [Store_cpu_seqno i]\<rparr>"
      using it r by simp_all
    have ex: "\<exists>before.
           CHR ''y'' \<notin> set before \<and>
           (asked \<longrightarrow> stdin st = before @ CHR ''y'' # stdin st') \<and>
           events st' = events st @
             [Sendto (remote_host ctx) (remote_port ctx) (htonl_bytes i) True] @
             (if asked then Printf_prompt i # map Getchar (before @ [CHR ''y'']) else []) @
             [Store_cpu_seqno i]"
      by (rule exI [of _ before]) (use b acked(2) in \<open>simp add: s\<close>)
    show ?thesis
      using o acked(1,2) y ex by (simp add: s)
  next
    case blocked
    have y: "CHR ''y'' \<notin> set (stdin st)"
      using blocked(3) by (simp add: getchar_until_y_None)
    have a: "i \<ge> breadcrumb_breakpoint ctx" "breakpoint_hits st \<ge> breadcrumb_breakpoint_hits ctx"
      using blocked(2) assms(4) by simp_all
    have "poller_iteration ctx True st = (out, st')"
      using assms(3) blocked(1) by simp
    then show ?thesis
      using poller_iteration_prompt_blocked [OF assms(1,2) a blocked(3)] blocked(1,2) y
      by auto
  qed
  with bytes show ?thesis by (elim conjE) (intro conjI, assumption+)
qed

text \<open>
  Breakpoint 5 with no hits required and breadcrumb 5 observed. With the input \<open>ny\<close>:
  datagram, prompt, two characters read, then the acknowledgement. With an input without
  \<open>y\<close> the pass never returns; with a failed send it leaves the loop; and with the
  breakpoint at 6 it acknowledges without reading anything.
\<close>

theorem report_then_ack_witness:
  "poller_iteration (sample_ctx 5 0) True (sample_poller 5 ''ny'') =
     (Continue,
      \<lparr>last_breadcrumb = 5, breakpoint_hits = 1,
       global = \<lparr>breadcrumb_cpu_sync_seqno = 5, breadcrumb_gpu_sync_seqno = 5\<rparr>,
       stdin = [],
       events = [Sendto ''127.0.0.1'' 9999 [0, 0, 0, 5] True, Printf_prompt 5,
                 Getchar CHR ''n'', Getchar CHR ''y'', Store_cpu_seqno 5]\<rparr>) \<and>
   datagrams (events (snd (poller_iteration (sample_ctx 5 0) True (sample_poller 5 ''ny'')))) =
     [[0, 0, 0, 5]] \<and>
   fst (poller_iteration (sample_ctx 5 0) True (sample_poller 5 ''no'')) = Never_returns \<and>
   fst (poller_iteration (sample_ctx 5 0) False (sample_poller 5 ''ny'')) = Goto_fail \<and>
   fst (poller_iteration (sample_ctx 6 0) True (sample_poller 5 [])) = Continue"
  using report_then_ack [of "sample_poller 5 ''ny''" 5 "sample_ctx 5 0" True
      "fst (poller_iteration (sample_ctx 5 0) True (sample_poller 5 ''ny''))"
      "snd (poller_iteration (sample_ctx 5 0) True (sample_poller 5 ''ny''))" True]
    report_then_ack [of "sample_poller 5 ''no''" 5 "sample_ctx 5 0" True
      "fst (poller_iteration (sample_ctx 5 0) True (sample_poller 5 ''no''))"
      "snd (poller_iteration (sample_ctx 5 0) True (sample_poller 5 ''no''))" True]
    report_then_ack [of "sample_poller 5 ''ny''" 5 "sample_ctx 5 0" False
      "fst (poller_iteration (sample_ctx 5 0) False (sample_poller 5 ''ny''))"
      "snd (poller_iteration (sample_ctx 5 0) False (sample_poller 5 ''ny''))" True]
    report_then_ack [of "sample_poller 5 []" 5 "sample_ctx 6 0" True
      "fst (poller_iteration (sample_ctx 6 0) True (sample_poller 5 []))"
      "snd (poller_iteration (sample_ctx 6 0) True (sample_poller 5 []))" False]
  by (simp add: sample_poller_def sample_ctx_def poller_iteration_def htonl_bytes_def Let_def)

text \<open>
  Claim C6, as amended. In a pass of the poller that finds a new value \<open>i\<close>, the
  prompt is printed if and only if the datagram was sent, \<open>i\<close> is at or above the
  breakpoint, and the hits counted before this pass are at or above the configured
  number. The hit counter grows by one exactly when the pass finds the breakpoint value
  and runs to its end; the prompt check reads the counter as it was before the pass, so
  it sees the hits of earlier passes only.
\<close>

theorem prompt_and_hit_counter:
  assumes "breadcrumb_gpu_sync_seqno (global st) = i"
    and "i \<noteq> last_breadcrumb st"
    and "poller_iteration ctx send_ok st = (out, st')"
  shows "prompts (events st') = prompts (events st) @
           (if send_ok \<and> i \<ge> breadcrumb_breakpoint ctx \<and>
               breakpoint_hits st \<ge> breadcrumb_breakpoint_hits ctx
            then [i] else []) \<and>
         breakpoint_hits st' = breakpoint_hits st +
           (if out = Continue \<and> i = breadcrumb_breakpoint ctx then 1 else 0)"
proof -
  let ?asked = "i \<ge> breadcrumb_breakpoint ctx \<and>
      breakpoint_hits st \<ge> breadcrumb_breakpoint_hits ctx"
  consider (failed) "\<not> send_ok"
    | (plain) "send_ok" "\<not> ?asked"
    | (acked) seen rest where "send_ok" "?asked" "getchar_until_y (stdin st) = Some (seen, rest)"
    | (blocked) "send_ok" "?asked" "getchar_until_y (stdin st) = None"
    by (cases "getchar_until_y (stdin st)") auto
  then show ?thesis
  proof cases
    case failed
    then show ?thesis
      using poller_iteration_send_failed [OF assms(1,2), of ctx] assms(3) by auto
  next
    case plain
    then show ?thesis
      using poller_iteration_no_prompt [OF assms(1,2), of ctx] assms(3) by auto
  next
    case acked
    have "poller_iteration ctx True st = (out, st')"
      using assms(3) acked(1) by simp
    then show ?thesis
      using poller_iteration_prompt_acked [OF assms(1,2) _ _ acked(3), of ctx] acked(1,2)
      by auto
  next
    case blocked
    have "poller_iteration ctx True st = (out, st')"
      using assms(3) blocked(1) by simp
    then show ?thesis
      using poller_iteration_prompt_blocked [OF assms(1,2) _ _ blocked(3), of ctx] blocked(1,2)
      by auto
  qed
qed

text \<open>
  Breakpoint 5 with one hit required. The first observation of 5 is not prompted for and
  counts as a hit; with one hit counted, the next observation of 5 is prompted for and
  counts as the second.
\<close>

theorem prompt_and_hit_counter_witness:
  "prompts (events (snd (poller_iteration (sample_ctx 5 1) True (sample_poller 5 ''y'')))) = [] \<and>
   breakpoint_hits (snd (poller_iteration (sample_ctx 5 1) True (sample_poller 5 ''y''))) = 1 \<and>
   prompts (events (snd (poller_iteration (sample_ctx 5 1) True
     ((sample_poller 5 ''y'')\<lparr>last_breadcrumb := 4, breakpoint_hits := 1\<rparr>)))) = [5] \<and>
   breakpoint_hits (snd (poller_iteration (sample_ctx 5 1) True
     ((sample_poller 5 ''y'')\<lparr>last_breadcrumb := 4, breakpoint_hits := 1\<rparr>))) = 2"
  using prompt_and_hit_counter [of "sample_poller 5 ''y''" 5 "sample_ctx 5 1" True
      "fst (poller_iteration (sample_ctx 5 1) True (sample_poller 5 ''y''))"
      "snd (poller_iteration (sample_ctx 5 1) True (sample_poller 5 ''y''))"]
    prompt_and_hit_counter [of "(sample_poller 5 ''y'')\<lparr>last_breadcrumb := 4, breakpoint_hits := 1\<rparr>"
      5 "sample_ctx 5 1" True
      "fst (poller_iteration (sample_ctx 5 1) True
         ((sample_poller 5 ''y'')\<lparr>last_breadcrumb := 4, breakpoint_hits := 1\<rparr>))"
      "snd (poller_iteration (sample_ctx 5 1) True
         ((sample_poller 5 ''y'')\<lparr>last_breadcrumb := 4, breakpoint_hits := 1\<rparr>))"]
  by (simp add: sample_poller_def sample_ctx_def poller_iteration_def Let_def)

text \<open>
  Claim C6 as stated fails when \<^verbatim>\<open>sendto\<close> fails: breakpoint 5 with no hits
  required and a new value 5, so both conditions of the claim hold, and no prompt is
  printed; the same pass with a successful send prints it.
\<close>

theorem prompt_needs_send_counterexample:
  "breadcrumb_gpu_sync_seqno (global (sample_poller 5 ''y'')) \<noteq> last_breadcrumb (sample_poller 5 ''y'') \<and>
   breadcrumb_gpu_sync_seqno (global (sample_poller 5 ''y'')) \<ge> breadcrumb_breakpoint (sample_ctx 5 0) \<and>
   breakpoint_hits (sample_poller 5 ''y'') \<ge> breadcrumb_breakpoint_hits (sample_ctx 5 0) \<and>
   prompts (events (snd (poller_iteration (sample_ctx 5 0) False (sample_poller 5 ''y'')))) = [] \<and>
   prompts (events (snd (poller_iteration (sample_ctx 5 0) True (sample_poller 5 ''y'')))) = [5]"
  by (simp add: sample_poller_def sample_ctx_def poller_iteration_def Let_def)

subsection \<open>The poller over its whole run\<close>

text \<open>
  With the all-ones breakpoint, a run whose observations never show the all-ones value
  adds no prompt to the events.
\<close>

lemma poll_loop_no_prompt:
  assumes "breadcrumb_breakpoint ctx = - 1"
    and "\<forall>ob \<in> set obs. gpu_seqno_seen ob \<noteq> - 1"
  shows "prompts (events (snd (poll_loop ctx obs st))) = prompts (events st)"
  using assms(2)
proof (induction obs arbitrary: st)
  case Nil
  then show ?case by simp
next
  case (Cons ob obs)
  define st0 where
    "st0 = st\<lparr>global := (global st)\<lparr>breadcrumb_gpu_sync_seqno := gpu_seqno_seen ob\<rparr>\<rparr>"
  have g: "breadcrumb_gpu_sync_seqno (global st0) = gpu_seqno_seen ob"
    and e0: "events st0 = events st" and l0: "last_breadcrumb st0 = last_breadcrumb st"
    by (simp_all add: st0_def)
  have IH: "prompts (events (snd (poll_loop ctx obs s))) = prompts (events s)" for s
    using Cons.IH Cons.prems by simp
  have below: "\<not> (gpu_seqno_seen ob \<ge> breadcrumb_breakpoint ctx \<and>
      breakpoint_hits st0 \<ge> breadcrumb_breakpoint_hits ctx)"
    using Cons.prems assms(1) by (simp add: word_order.extremum_unique)
  show ?case
  proof (cases "stop_seen ob")
    case True
    then show ?thesis by simp
  next
    case False
    show ?thesis
    proof (cases "gpu_seqno_seen ob = last_breadcrumb st")
      case True
      then show ?thesis
        using False poller_iteration_same [of st0 ctx "sendto_ok ob"] g l0 IH [of st0] e0
        by (simp add: st0_def)
    next
      case new: False
      then have n: "gpu_seqno_seen ob \<noteq> last_breadcrumb st0" using l0 by simp
      show ?thesis
      proof (cases "sendto_ok ob")
        case True
        then show ?thesis
          using False poller_iteration_no_prompt [OF g n below] IH e0
          by (simp add: st0_def [symmetric])
      next
        case sf: False
        then show ?thesis
          using False poller_iteration_send_failed [OF g n, of ctx] e0
          by (simp add: st0_def [symmetric])
      qed
    qed
  qed
qed

text \<open>
  Claim C5, as amended. When the breakpoint is the all-ones sentinel, the poller thread
  prints no prompt, whatever the socket, the input and the observations are, as long as
  no observed breadcrumb value is \<open>2^32 - 1\<close>.
\<close>

theorem no_prompt_with_sentinel:
  assumes "breadcrumb_breakpoint ctx = - 1"
    and "\<forall>ob \<in> set obs. gpu_seqno_seen ob \<noteq> - 1"
  shows "prompts (events (snd (sync_gpu_with_cpu ctx g socket_ok input obs))) = []"
  using poll_loop_no_prompt [OF assms]
  by (simp add: sync_gpu_with_cpu_def Let_def)

text \<open>
  The configuration \<^verbatim>\<open>break=-1:0\<close> and the breadcrumbs 1, 2 and \<open>2^32 - 2\<close>: three
  acknowledgements, no prompt.
\<close>

theorem no_prompt_with_sentinel_witness:
  "prompts (events (snd (sync_gpu_with_cpu (sample_ctx 4294967295 0) sample_global True ''''
      [sample_observation 1, sample_observation 2, sample_observation 4294967294]))) = [] \<and>
   acks (events (snd (sync_gpu_with_cpu (sample_ctx 4294967295 0) sample_global True ''''
      [sample_observation 1, sample_observation 2, sample_observation 4294967294]))) =
     [1, 2, 4294967294]"
  using no_prompt_with_sentinel [of "sample_ctx 4294967295 0"
      "[sample_observation 1, sample_observation 2, sample_observation 4294967294]"
      sample_global True "''''"]
  by (simp add: sample_ctx_def sample_global_def sample_observation_def sync_gpu_with_cpu_def
      poller_iteration_def Let_def word_le_nat_alt)

text \<open>
  Claim C5 as stated fails at the value it names: with \<^verbatim>\<open>break=-1:0\<close> the breadcrumb
  \<open>2^32 - 1\<close> is at the breakpoint and the prompt is printed for it.
\<close>

theorem sentinel_prompt_counterexample:
  "breadcrumb_breakpoint (sample_ctx 4294967295 0) = 4294967295 \<and>
   prompts (events (snd (sync_gpu_with_cpu (sample_ctx 4294967295 0) sample_global True ''y''
      [sample_observation 4294967295]))) = [4294967295]"
  by (simp add: sample_ctx_def sample_global_def sample_observation_def sync_gpu_with_cpu_def
      poller_iteration_def Let_def word_le_nat_alt)

subsection \<open>The lifecycle\<close>

text \<open>
  \<^verbatim>\<open>tu_breadcrumbs_finish\<close> on a device without a context, or whose context has the
  stop flag set, returns without effect; on a live context that is not stopping it sets
  the flag, joins the thread and frees the context, and the device keeps the address.
  The thread returns at the first test of the loop condition that sees the flag.
\<close>

lemma finish_no_effect:
  assumes "breadcrumbs_ctx device = NULL \<or> (\<exists>ctx. breadcrumbs_ctx device = Ptr ctx \<and> thread_stop ctx)"
  shows "tu_breadcrumbs_finish device = Inr (device, [])"
  using assms by (auto simp add: tu_breadcrumbs_finish_def)

lemma finish_live:
  assumes "breadcrumbs_ctx device = Ptr ctx" and "\<not> thread_stop ctx"
  shows "tu_breadcrumbs_finish device =
     Inr (device\<lparr>breadcrumbs_ctx := Dangling\<rparr>, [Store_thread_stop True, Pthread_join, Free])"
  using assms by (simp add: tu_breadcrumbs_finish_def)

lemma poll_loop_stop:
  "stop_seen ob \<Longrightarrow> fst (poll_loop ctx (ob # obs) st) = Returned"
  by simp

text \<open>
  \<^verbatim>\<open>tu_breadcrumbs_init\<close> when the host that \<^verbatim>\<open>sscanf\<close> converts does not fit
  \<^verbatim>\<open>remote_host\<close>: the store runs past the array, whatever the rest of the string is.
\<close>

lemma init_host_overflow:
  assumes "(if TU_BREADCRUMBS_ENABLED os then os_get_option os ''TU_BREADCRUMBS'' else None) = Some s"
    and "sscanf_breadcrumbs os s = (n, host, port, breakpoint, hits)"
    and "0 < n" and "remote_host_size \<le> length host"
  shows "tu_breadcrumbs_init os device = Inl Buffer_overflow"
  using assms by (simp add: tu_breadcrumbs_init_def)

text \<open>
  \<^verbatim>\<open>tu_breadcrumbs_init\<close> when the host fits, or no conversion is made. \<open>opt\<close> is the
  configuration string as the function reads it. When it is absent, or \<^verbatim>\<open>sscanf\<close>
  does not convert all four fields of \<^verbatim>\<open>HOST:PORT,break=INDEX:HITS\<close>, the device is
  left with a null context; in the second case the error is logged, and the context
  allocated for the parse is freed. On such a device every call of
  \<^verbatim>\<open>tu_cs_emit_sync_breadcrumb\<close> and \<^verbatim>\<open>tu_breadcrumbs_finish\<close> returns device and
  cursor as they were. When the string parses, the device gets a context with the parsed
  fields, counter 0 and the stop flag clear, both sequence numbers are stored as 0, and
  only then is the poller thread created: it starts on sequence numbers that are both 0.
\<close>

lemma init_uninstrumented_or_zeroed:
  assumes "opt = (if TU_BREADCRUMBS_ENABLED os then os_get_option os ''TU_BREADCRUMBS'' else None)"
    and "\<forall>s. opt = Some s \<longrightarrow>
           fst (sscanf_breadcrumbs os s) = 0 \<or>
           length (fst (snd (sscanf_breadcrumbs os s))) < remote_host_size"
  shows "\<exists>device' evs. tu_breadcrumbs_init os device = Inr (device', evs) \<and>
    (if opt = None \<or> (\<exists>s. opt = Some s \<and> fst (sscanf_breadcrumbs os s) \<noteq> 4)
     then device' = device\<lparr>breadcrumbs_ctx := NULL\<rparr> \<and>
          evs = (if opt = None then [] else [Malloc, Free, Loge ''Wrong TU_BREADCRUMBS value'']) \<and>
          (\<forall>p cs opcode cnt. tu_cs_emit_sync_breadcrumb p device' cs opcode cnt = Inr (device', cs)) \<and>
          tu_breadcrumbs_finish device' = Inr (device', [])
     else (\<exists>s host port breakpoint hits ctx.
          opt = Some s \<and> sscanf_breadcrumbs os s = (4, host, port, breakpoint, hits) \<and>
          ctx = \<lparr>remote_host = host, remote_port = port, breadcrumb_breakpoint = breakpoint,
                 breadcrumb_breakpoint_hits = hits, thread_stop = False, breadcrumb_idx = 0\<rparr> \<and>
          device' = device\<lparr>breadcrumbs_ctx := Ptr ctx,
                      global_bo_map := \<lparr>breadcrumb_cpu_sync_seqno = 0, breadcrumb_gpu_sync_seqno = 0\<rparr>\<rparr> \<and>
          evs = [Malloc, Store_cpu_seqno 0, Store_gpu_seqno 0,
                 Pthread_create ctx \<lparr>breadcrumb_cpu_sync_seqno = 0, breadcrumb_gpu_sync_seqno = 0\<rparr>]))"
proof (cases opt)
  case None
  have n: "breadcrumbs_ctx (device\<lparr>breadcrumbs_ctx := NULL\<rparr>) = NULL" by simp
  have "tu_breadcrumbs_init os device = Inr (device\<lparr>breadcrumbs_ctx := NULL\<rparr>, [])"
    using assms(1) None by (auto simp add: tu_breadcrumbs_init_def split: if_splits)
  then show ?thesis
    using None n by (simp add: emit_ignored finish_no_effect)
next
  case (Some s)
  obtain n host port breakpoint hits where
    sc: "sscanf_breadcrumbs os s = (n, host, port, breakpoint, hits)"
    by (cases "sscanf_breadcrumbs os s") auto
  have o: "(if TU_BREADCRUMBS_ENABLED os then os_get_option os ''TU_BREADCRUMBS'' else None) = Some s"
    using assms(1) Some by simp
  have fits: "\<not> (0 < n \<and> remote_host_size < length host + 1)"
    using assms(2) Some sc by auto
  show ?thesis
  proof (cases "n = 4")
    case True
    have g: "(global_bo_map device)\<lparr>breadcrumb_cpu_sync_seqno := 0, breadcrumb_gpu_sync_seqno := 0\<rparr> =
        \<lparr>breadcrumb_cpu_sync_seqno = 0, breadcrumb_gpu_sync_seqno = 0\<rparr>"
      by (cases "global_bo_map device") simp
    show ?thesis
      using Some sc True g fits
      by (auto simp add: tu_breadcrumbs_init_def o Let_def)
  next
    case False
    have n: "breadcrumbs_ctx (device\<lparr>breadcrumbs_ctx := NULL\<rparr>) = NULL" by simp
    have "tu_breadcrumbs_init os device =
        Inr (device\<lparr>breadcrumbs_ctx := NULL\<rparr>, [Malloc, Free, Loge ''Wrong TU_BREADCRUMBS value''])"
      using False sc fits by (auto simp add: tu_breadcrumbs_init_def o)
    then show ?thesis
      using Some sc False n by (simp add: emit_ignored finish_no_effect)
  qed
qed

text \<open>
  No option; an option that ends with the host; a host of 63 characters, the longest
  that fits; and the option of the header comment of the source, on a device whose
  sequence numbers held 7 and 9.
\<close>

lemma init_samples:
  "tu_breadcrumbs_init (sample_os None) (sample_device Dangling) = Inr (sample_device NULL, []) \<and>
   tu_breadcrumbs_init (sample_os (Some ''localhost'')) (sample_device Dangling) =
     Inr (sample_device NULL, [Malloc, Free, Loge ''Wrong TU_BREADCRUMBS value'']) \<and>
   tu_breadcrumbs_init
       (sample_os (Some ''aaaaaaaaaaaaaaaaaaaaaaaaaaaaaaaaaaaaaaaaaaaaaaaaaaaaaaaaaaaaaaa''))
       (sample_device Dangling) =
     Inr (sample_device NULL, [Malloc, Free, Loge ''Wrong TU_BREADCRUMBS value'']) \<and>
   tu_breadcrumbs_init (sample_os (Some ''127.0.0.1:9999,break=-1:0''))
       ((sample_device Dangling)\<lparr>global_bo_map :=
          \<lparr>breadcrumb_cpu_sync_seqno = 7, breadcrumb_gpu_sync_seqno = 9\<rparr>\<rparr>) =
     Inr (sample_device (Ptr (sample_ctx 4294967295 0)),
      [Malloc, Store_cpu_seqno 0, Store_gpu_seqno 0,
       Pthread_create (sample_ctx 4294967295 0)
         \<lparr>breadcrumb_cpu_sync_seqno = 0, breadcrumb_gpu_sync_seqno = 0\<rparr>])"
  by (simp add: sample_os_def sample_sscanf_def sample_device_def sample_ctx_def
      tu_breadcrumbs_init_def remote_host_size_def Let_def)

text \<open>
  Claim C8 does not hold of the source for every configuration string. A string of 200
  letters has no colon: \<^verbatim>\<open>sscanf\<close> converts the host and nothing else, so the string
  does not parse, and the claim has the device left without a context and the error
  logged. The conversion stores 201 bytes into \<^verbatim>\<open>char remote_host[64]\<close>, which the
  format does not bound: a write past the array and past the allocated context, before
  the context is freed and the error is logged. The same holds from 64 characters on,
  where the terminating zero is the first byte past the array.
\<close>

theorem init_overruns_remote_host:
  "sscanf_breadcrumbs (sample_os None) (replicate 200 CHR ''a'') =
     (1, replicate 200 CHR ''a'', 0, 0, 0) \<and>
   tu_breadcrumbs_init (sample_os (Some (replicate 200 CHR ''a''))) (sample_device NULL) =
     Inl Buffer_overflow \<and>
   tu_breadcrumbs_init
     (sample_os (Some ''aaaaaaaaaaaaaaaaaaaaaaaaaaaaaaaaaaaaaaaaaaaaaaaaaaaaaaaaaaaaaaaa''))
     (sample_device NULL) = Inl Buffer_overflow"
proof -
  have h: "takeWhile (\<lambda>c. c \<noteq> CHR '':'') (replicate 200 CHR ''a'') = replicate 200 CHR ''a''"
    by (simp add: takeWhile_replicate)
  have l: "length ''127.0.0.1:9999,break=-1:0'' \<noteq> 200" "length ''127.0.0.1:9999,break=100:0'' \<noteq> 200"
    by simp_all
  have ne: "replicate 200 CHR ''a'' \<noteq> ''127.0.0.1:9999,break=-1:0''"
      "replicate 200 CHR ''a'' \<noteq> ''127.0.0.1:9999,break=100:0''"
      "replicate 200 CHR ''a'' \<noteq> []"
    using l by (metis length_replicate, metis length_replicate) simp
  have s: "sample_sscanf (replicate 200 CHR ''a'') = (1, replicate 200 CHR ''a'', 0, 0, 0)"
    unfolding sample_sscanf_def Let_def h using ne by simp
  have o: "(if TU_BREADCRUMBS_ENABLED (sample_os (Some x))
            then os_get_option (sample_os (Some x)) ''TU_BREADCRUMBS'' else None) = Some x" for x
    by (simp add: sample_os_def)
  have s': "sscanf_breadcrumbs (sample_os (Some x)) = sample_sscanf" for x
    by (simp add: sample_os_def)
  have 1: "tu_breadcrumbs_init (sample_os (Some (replicate 200 CHR ''a''))) (sample_device NULL) =
      Inl Buffer_overflow"
    by (rule init_host_overflow [OF o, where n = 1 and host = "replicate 200 CHR ''a''"])
      (simp_all add: s' s remote_host_size_def)
  have 2: "tu_breadcrumbs_init
     (sample_os (Some ''aaaaaaaaaaaaaaaaaaaaaaaaaaaaaaaaaaaaaaaaaaaaaaaaaaaaaaaaaaaaaaaa''))
     (sample_device NULL) = Inl Buffer_overflow"
    by (simp add: sample_os_def sample_sscanf_def tu_breadcrumbs_init_def remote_host_size_def Let_def)
  show ?thesis
    using s 1 2 by (simp add: sample_os_def)
qed

text \<open>
  Claim C9 does not hold of the source. The first \<^verbatim>\<open>tu_breadcrumbs_finish\<close> on a
  device with a live context sets the stop flag, joins the thread and frees the context,
  and leaves \<^verbatim>\<open>device->breadcrumbs_ctx\<close> pointing at the freed memory. The second call
  finds the pointer not null and reads \<^verbatim>\<open>ctx->thread_stop\<close> through it: a read of
  freed memory, not a return without effect.
\<close>

theorem finish_twice_reads_freed_context:
  "tu_breadcrumbs_finish (sample_device (Ptr (sample_ctx 100 0))) =
     Inr (sample_device Dangling, [Store_thread_stop True, Pthread_join, Free]) \<and>
   tu_breadcrumbs_finish (sample_device Dangling) = Inl Use_after_free"
  by (simp add: tu_breadcrumbs_finish_def sample_device_def sample_ctx_def)

end
